theory Spec2Isabelle
  imports Complex_Main "HOL-Library.AList"
begin

section \<open>Python string primitives used by the chunker\<close>

text \<open>
  Texts are \<^typ>\<open>string\<close>; a character stands for the code point of the same number, so
  the model covers code points below 256. \<open>whitespace\<close> lists the code points below 256
  for which Python's \<^verbatim>\<open>str.isspace\<close> holds; \<^verbatim>\<open>str.strip()\<close> removes exactly these from
  both ends.
\<close>

definition whitespace :: string where
  "whitespace = [CHR 0x09, CHR 0x0A, CHR 0x0B, CHR 0x0C, CHR 0x0D, CHR 0x1C, CHR 0x1D,
                 CHR 0x1E, CHR 0x1F, CHR 0x20, CHR 0x85, CHR 0xA0]"

definition isspace :: "char \<Rightarrow> bool" where
  "isspace c = (c \<in> set whitespace)"

definition strip :: "string \<Rightarrow> string" where
  "strip s = rev (dropWhile isspace (rev (dropWhile isspace s)))"

text \<open>
  \<^verbatim>\<open>text[start:end]\<close>: a negative index counts from the end, and both indices are clamped
  to the text.
\<close>

definition slice_index :: "int \<Rightarrow> int \<Rightarrow> int" where
  "slice_index n i = (if i < 0 then max (i + n) 0 else min i n)"

definition slice :: "string \<Rightarrow> int \<Rightarrow> int \<Rightarrow> string" where
  "slice text start end' =
     (let n = int (length text);
          s = slice_index n start;
          e = slice_index n end'
      in take (nat (e - s)) (drop (nat s) text))"

text \<open>
  \<^verbatim>\<open>text.rfind(c, start, end)\<close> for a one-character \<open>c\<close>: the highest index \<open>i\<close> with
  \<open>start \<le> i < end\<close> and \<open>text[i] = c\<close>, or \<open>-1\<close>. \<open>rscan\<close> walks down from \<open>hi - 1\<close> to
  \<open>lo\<close>; \<open>rfind\<close> first adjusts the two indices the way CPython does.
\<close>

fun rscan :: "string \<Rightarrow> char \<Rightarrow> nat \<Rightarrow> nat \<Rightarrow> int" where
  "rscan text c lo 0 = - 1"
| "rscan text c lo (Suc i) =
     (if i < lo then - 1 else if text ! i = c then int i else rscan text c lo i)"

definition rfind :: "string \<Rightarrow> char \<Rightarrow> int \<Rightarrow> int \<Rightarrow> int" where
  "rfind text c start end' =
     (let n = int (length text);
          e = (if end' > n then n else if end' < 0 then max (end' + n) 0 else end');
          s = (if start < 0 then max (start + n) 0 else start)
      in rscan text c (nat s) (nat e))"

section \<open>DocumentProcessor\<close>

record document_processor =
  chunk_size :: int
  chunk_overlap :: int

text \<open>\<^verbatim>\<open>DocumentProcessor.__init__\<close>: both arguments are stored as given.\<close>

definition init :: "int \<Rightarrow> int \<Rightarrow> document_processor" where
  "init cs ov = \<lparr>chunk_size = cs, chunk_overlap = ov\<rparr>"

text \<open>
  The body of the loop of \<^verbatim>\<open>chunk_text\<close> up to the choice of \<open>end\<close>: the hard limit
  \<open>start + chunk_size\<close>, moved back to just after the last full stop of the window, or
  else to the last space of the window, when that index lies past the midpoint.
\<close>

definition cut_end :: "document_processor \<Rightarrow> string \<Rightarrow> int \<Rightarrow> int" where
  "cut_end self text start =
     (let end' = start + chunk_size self in
      if end' < int (length text) then
        (let sentence_end = rfind text CHR ''.'' start end' in
         if sentence_end \<noteq> - 1 \<and> sentence_end > start + chunk_size self div 2
         then sentence_end + 1
         else (let space = rfind text CHR '' '' start end' in
               if space \<noteq> - 1 \<and> space > start + chunk_size self div 2
               then space else end'))
      else end')"

text \<open>
  The \<^verbatim>\<open>while\<close> loop of \<^verbatim>\<open>chunk_text\<close>. The first argument bounds the number of
  iterations of the loop body: the result is \<open>None\<close> when the loop would enter its body
  once more than the bound allows.
\<close>

fun chunk_loop ::
  "nat \<Rightarrow> document_processor \<Rightarrow> string \<Rightarrow> int \<Rightarrow> string list \<Rightarrow> string list option" where
  "chunk_loop 0 self text start chunks =
     (if start < int (length text) then None else Some chunks)"
| "chunk_loop (Suc n) self text start chunks =
     (if start < int (length text) then
        (let end' = cut_end self text start;
             chunk = strip (slice text start end');
             chunks' = (if chunk \<noteq> [] then chunks @ [chunk] else chunks);
             start' = end' - chunk_overlap self
         in if start' \<le> 0 \<or> start' \<ge> int (length text) then Some chunks'
            else chunk_loop n self text start' chunks')
      else Some chunks)"

definition chunk_text :: "nat \<Rightarrow> document_processor \<Rightarrow> string \<Rightarrow> string list option" where
  "chunk_text n self text = chunk_loop n self text 0 []"

text \<open>
  The same loop, recording the window \<open>(start, end)\<close> of every iteration instead of the
  stripped slice. \<open>emitted\<close> turns the windows into the chunks the loop appends.
\<close>

fun span_loop ::
  "nat \<Rightarrow> document_processor \<Rightarrow> string \<Rightarrow> int \<Rightarrow> (int \<times> int) list option" where
  "span_loop 0 self text start =
     (if start < int (length text) then None else Some [])"
| "span_loop (Suc n) self text start =
     (if start < int (length text) then
        (let end' = cut_end self text start;
             start' = end' - chunk_overlap self
         in if start' \<le> 0 \<or> start' \<ge> int (length text) then Some [(start, end')]
            else map_option ((#) (start, end')) (span_loop n self text start'))
      else Some [])"

definition chunk_spans :: "nat \<Rightarrow> document_processor \<Rightarrow> string \<Rightarrow> (int \<times> int) list option" where
  "chunk_spans n self text = span_loop n self text 0"

definition emitted :: "string \<Rightarrow> (int \<times> int) list \<Rightarrow> string list" where
  "emitted text spans =
     filter (\<lambda>chunk. chunk \<noteq> []) (map (\<lambda>(s, e). strip (slice text s e)) spans)"

definition covered :: "(int \<times> int) list \<Rightarrow> int \<Rightarrow> bool" where
  "covered spans i = list_ex (\<lambda>(s, e). s \<le> i \<and> i < e) spans"

definition ceil_div :: "int \<Rightarrow> int \<Rightarrow> int" where
  "ceil_div a b = - ((- a) div b)"

section \<open>Python numbers\<close>

text \<open>
  A number is the real value of a Python \<^verbatim>\<open>int\<close> or of a finite \<^verbatim>\<open>float\<close>; a \<^verbatim>\<open>float\<close> is an
  IEEE 754 double. Comparisons of such numbers are exact. An arithmetic operation on
  floats gives the double nearest to the exact result, ties going to the even
  significand: \<open>round_double\<close>. A float literal such as \<^verbatim>\<open>0.1\<close> is \<open>round_double (1 / 10)\<close>.
  NaN and the infinities are not numbers of the model; \<open>1 - d\<close> never overflows for a
  double \<open>d\<close>.

  \<open>bit_length\<close> is \<^verbatim>\<open>int.bit_length\<close>; \<open>pow2 k\<close> is the power \<open>2 ^ k\<close> for an integer \<open>k\<close>;
  \<open>binade x\<close> is the exponent \<open>e\<close> with \<open>pow2 e \<le> |x| < pow2 (e + 1)\<close>. A double in that
  binade is a multiple of \<open>pow2 (e - 52)\<close>, and of \<open>pow2 (- 1074)\<close> below the normal range.
\<close>

fun bit_length :: "nat \<Rightarrow> nat" where
  "bit_length n = (if n = 0 then 0 else Suc (bit_length (n div 2)))"

declare bit_length.simps [simp del]

definition binade :: "real \<Rightarrow> int" where
  "binade x =
     (if 1 \<le> \<bar>x\<bar> then int (bit_length (nat \<lfloor>\<bar>x\<bar>\<rfloor>)) - 1
      else - int (bit_length (nat (\<lceil>1 / \<bar>x\<bar>\<rceil> - 1))))"

definition pow2 :: "int \<Rightarrow> real" where
  "pow2 k = (if 0 \<le> k then 2 ^ nat k else 1 / 2 ^ nat (- k))"

definition round_half_even :: "real \<Rightarrow> int" where
  "round_half_even y =
     (let n = \<lfloor>y\<rfloor>; r = y - of_int n
      in if r < 1 / 2 then n else if 1 / 2 < r then n + 1 else if even n then n else n + 1)"

definition round_double :: "real \<Rightarrow> real" where
  "round_double x =
     (if x = 0 then 0
      else (let q = pow2 (max (binade x - 52) (- 1074))
            in of_int (round_half_even (x / q)) * q))"

section \<open>Values, errors and the external services\<close>

text \<open>
  Metadata values are the scalars the index accepts. A \<^verbatim>\<open>dict\<close> is an association list in
  insertion order; \<open>AList.update\<close> overwrites a key in place or appends it, as a \<^verbatim>\<open>dict\<close>
  does.
\<close>

datatype pyval = StrV string | IntV int

type_synonym metadata = "(string \<times> pyval) list"

text \<open>
  The exceptions the retrieval path can meet: failures of the three external services,
  and the lookups of the code itself.
\<close>

datatype error = EmbeddingError | IndexQueryError | CompletionError
  | KeyError | IndexError | TypeError

text \<open>
  An entry of the result mapping of a search: the key may be absent, or hold \<^verbatim>\<open>None\<close>, or
  hold a list with one row per query.
\<close>

datatype 'a field = Absent | Null | Present 'a

record search_results =
  documents :: "string list list field"
  metadatas :: "metadata list list field"
  distances :: "real list list field"

record message =
  role :: string
  content :: string

text \<open>
  The services outside the code: \<^verbatim>\<open>ollama.embeddings\<close>, \<^verbatim>\<open>ollama.chat\<close> (without and with
  streaming; a streamed chunk may lack a message content), and the collection of the
  index. Every call either raises or returns.
\<close>

record ollama =
  ollama_embeddings :: "string \<Rightarrow> string \<Rightarrow> error + (string \<times> real list) list"
  ollama_chat :: "string \<Rightarrow> message list \<Rightarrow> error + string"
  ollama_chat_stream :: "string \<Rightarrow> message list \<Rightarrow> error + string option list"

record collection =
  collection_count :: "error + int"
  collection_query :: "real list \<Rightarrow> int \<Rightarrow> error + search_results"

text \<open>The calls made to the services, in order.\<close>

datatype call = EmbeddingsCall string string | CountCall | QueryCall "real list" int
  | ChatCall string "message list" bool

section \<open>VectorStore\<close>

record vector_store =
  embedding_model :: string
  collection :: collection

definition getitem :: "'a list \<Rightarrow> nat \<Rightarrow> error + 'a" where
  "getitem xs i = (if i < length xs then Inr (xs ! i) else Inl IndexError)"

text \<open>\<^verbatim>\<open>VectorStore._generate_embedding\<close>: one call of the gateway; an error is logged and raised again.\<close>

definition generate_embedding ::
  "ollama \<Rightarrow> vector_store \<Rightarrow> string \<Rightarrow> (error + real list) \<times> call list" where
  "generate_embedding svc self prompt =
     (case ollama_embeddings svc (embedding_model self) prompt of
        Inl e \<Rightarrow> Inl e
      | Inr response \<Rightarrow>
          (case map_of response ''embedding'' of None \<Rightarrow> Inl KeyError | Some v \<Rightarrow> Inr v),
      [EmbeddingsCall (embedding_model self) prompt])"

text \<open>\<^verbatim>\<open>VectorStore.search\<close>: every error is logged and raised again.\<close>

definition search ::
  "ollama \<Rightarrow> vector_store \<Rightarrow> string \<Rightarrow> int \<Rightarrow> (error + search_results) \<times> call list" where
  "search svc self query n_results =
     (case generate_embedding svc self query of
        (Inl e, calls1) \<Rightarrow> (Inl e, calls1)
      | (Inr query_embedding, calls1) \<Rightarrow>
          (case collection_count (collection self) of
             Inl e \<Rightarrow> (Inl e, calls1 @ [CountCall])
           | Inr count \<Rightarrow>
               (let adjusted_n_results = min n_results count;
                    calls2 = calls1 @ [CountCall, QueryCall query_embedding adjusted_n_results]
                in case collection_query (collection self) query_embedding adjusted_n_results of
                     Inl e \<Rightarrow> (Inl e, calls2)
                   | Inr results \<Rightarrow>
                       (case documents results of
                          Absent \<Rightarrow> (Inl KeyError, calls2)
                        | _ \<Rightarrow> (Inr results, calls2)))))"

section \<open>RAGService and ImprovedRAGService\<close>

record rag_service =
  llm_model :: string
  vector_store :: vector_store

record context_record =
  ctx_text :: string
  ctx_metadata :: metadata
  ctx_similarity :: real

text \<open>
  \<^verbatim>\<open>results['distances'][0][i] if 'distances' in results else 0\<close> and
  \<^verbatim>\<open>results['metadatas'][0][i] if results['metadatas'] else {}\<close>. The distances of the
  index are floats, so \<^verbatim>\<open>1 - distance\<close> in the loops below is a float subtraction; for the
  default \<open>0\<close> it is the exact \<open>1\<close>.
\<close>

definition distance_at :: "search_results \<Rightarrow> nat \<Rightarrow> error + real" where
  "distance_at results i =
     (case distances results of
        Absent \<Rightarrow> Inr 0
      | Null \<Rightarrow> Inl TypeError
      | Present rows \<Rightarrow> (case getitem rows 0 of Inl e \<Rightarrow> Inl e | Inr row \<Rightarrow> getitem row i))"

definition metadata_at :: "search_results \<Rightarrow> nat \<Rightarrow> error + metadata" where
  "metadata_at results i =
     (case metadatas results of
        Absent \<Rightarrow> Inl KeyError
      | Null \<Rightarrow> Inr []
      | Present rows \<Rightarrow>
          (if rows = [] then Inr []
           else case getitem rows 0 of Inl e \<Rightarrow> Inl e | Inr row \<Rightarrow> getitem row i))"

text \<open>
  The \<^verbatim>\<open>for\<close> loop of \<^verbatim>\<open>RAGService.retrieve_context\<close> over \<^verbatim>\<open>enumerate(results['documents'][0])\<close>:
  the metadata is looked up only for a record that passes the threshold.
\<close>

fun collect_contexts ::
  "search_results \<Rightarrow> real \<Rightarrow> (nat \<times> string) list \<Rightarrow> context_record list \<Rightarrow> error + context_record list" where
  "collect_contexts results min_similarity [] contexts = Inr contexts"
| "collect_contexts results min_similarity ((i, doc) # rest) contexts =
     (case distance_at results i of
        Inl e \<Rightarrow> Inl e
      | Inr distance \<Rightarrow>
          (let similarity = round_double (1 - distance) in
           if similarity \<ge> min_similarity then
             (case metadata_at results i of
                Inl e \<Rightarrow> Inl e
              | Inr m \<Rightarrow> collect_contexts results min_similarity rest
                  (contexts @ [\<lparr>ctx_text = doc, ctx_metadata = m, ctx_similarity = similarity\<rparr>]))
           else collect_contexts results min_similarity rest contexts))"

text \<open>
  The loop of \<^verbatim>\<open>ImprovedRAGService.retrieve_context\<close>: the metadata is looked up (and
  logged) for every record, before the threshold is applied.
\<close>

fun improved_collect_contexts ::
  "search_results \<Rightarrow> real \<Rightarrow> (nat \<times> string) list \<Rightarrow> context_record list \<Rightarrow> error + context_record list" where
  "improved_collect_contexts results min_similarity [] contexts = Inr contexts"
| "improved_collect_contexts results min_similarity ((i, doc) # rest) contexts =
     (case distance_at results i of
        Inl e \<Rightarrow> Inl e
      | Inr distance \<Rightarrow>
          (let similarity = round_double (1 - distance) in
           case metadata_at results i of
             Inl e \<Rightarrow> Inl e
           | Inr m \<Rightarrow>
               if similarity \<ge> min_similarity then
                 improved_collect_contexts results min_similarity rest
                   (contexts @ [\<lparr>ctx_text = doc, ctx_metadata = m, ctx_similarity = similarity\<rparr>])
               else improved_collect_contexts results min_similarity rest contexts))"

text \<open>The body of the \<^verbatim>\<open>try\<close> after the search: the guard on the documents, then the loop.\<close>

definition extract_contexts ::
  "(search_results \<Rightarrow> real \<Rightarrow> (nat \<times> string) list \<Rightarrow> context_record list \<Rightarrow> error + context_record list) \<Rightarrow>
   search_results \<Rightarrow> real \<Rightarrow> error + context_record list" where
  "extract_contexts loop results min_similarity =
     (case documents results of
        Absent \<Rightarrow> Inl KeyError
      | Null \<Rightarrow> Inr []
      | Present rows \<Rightarrow>
          (case rows of
             [] \<Rightarrow> Inr []
           | docs # _ \<Rightarrow>
               if docs \<noteq> [] then loop results min_similarity (List.enumerate 0 docs) []
               else Inr []))"

text \<open>
  \<^verbatim>\<open>retrieve_context\<close>: the search and the extraction run inside \<^verbatim>\<open>try\<close>; the handler
  \<^verbatim>\<open>except Exception\<close> logs the error and returns the empty list.
\<close>

definition retrieve_with ::
  "(search_results \<Rightarrow> real \<Rightarrow> (nat \<times> string) list \<Rightarrow> context_record list \<Rightarrow> error + context_record list) \<Rightarrow>
   ollama \<Rightarrow> rag_service \<Rightarrow> string \<Rightarrow> int \<Rightarrow> real \<Rightarrow> (error + context_record list) \<times> call list" where
  "retrieve_with loop svc self query n_results min_similarity =
     (case search svc (vector_store self) query n_results of
        (Inl e, calls) \<Rightarrow> (Inr [], calls)
      | (Inr results, calls) \<Rightarrow>
          (case extract_contexts loop results min_similarity of
             Inl e \<Rightarrow> (Inr [], calls)
           | Inr contexts \<Rightarrow> (Inr contexts, calls)))"

definition retrieve_context ::
  "ollama \<Rightarrow> rag_service \<Rightarrow> string \<Rightarrow> int \<Rightarrow> real \<Rightarrow> (error + context_record list) \<times> call list" where
  "retrieve_context = retrieve_with collect_contexts"

definition improved_retrieve_context ::
  "ollama \<Rightarrow> rag_service \<Rightarrow> string \<Rightarrow> int \<Rightarrow> real \<Rightarrow> (error + context_record list) \<times> call list" where
  "improved_retrieve_context = retrieve_with improved_collect_contexts"

text \<open>
  What the retriever is to return for an index answer of documents, metadata and
  distances, position by position: each document with its metadata and the similarity
  \<open>1 - distance\<close>, computed on floats.
\<close>

definition similarity_records ::
  "string list \<Rightarrow> metadata list \<Rightarrow> real list \<Rightarrow> context_record list" where
  "similarity_records docs metas dists =
     map (\<lambda>(doc, m, d). \<lparr>ctx_text = doc, ctx_metadata = m,
                       ctx_similarity = round_double (1 - d)\<rparr>)
       (zip docs (zip metas dists))"

text \<open>Concrete services for the examples below.\<close>

definition unreachable_ollama :: ollama where
  "unreachable_ollama =
     \<lparr>ollama_embeddings = (\<lambda>model prompt. Inl EmbeddingError),
      ollama_chat = (\<lambda>model messages. Inl CompletionError),
      ollama_chat_stream = (\<lambda>model messages. Inl CompletionError)\<rparr>"

definition echo_ollama :: ollama where
  "echo_ollama =
     \<lparr>ollama_embeddings = (\<lambda>model prompt. Inr [(''embedding'', [1, 0])]),
      ollama_chat = (\<lambda>model messages. Inr ''ok''),
      ollama_chat_stream = (\<lambda>model messages. Inr [Some ''o'', None, Some ''k''])\<rparr>"

definition service_on :: "collection \<Rightarrow> rag_service" where
  "service_on c =
     \<lparr>llm_model = ''llama3.2'',
      vector_store = \<lparr>embedding_model = ''mxbai-embed-large'', collection = c\<rparr>\<rparr>"

definition three_results :: search_results where
  "three_results =
     \<lparr>documents = Present [[''a'', ''b'', ''c'']],
      metadatas = Present [[[(''source'', StrV ''x.txt'')], [(''source'', StrV ''y.txt'')],
                           [(''source'', StrV ''z.txt'')]]],
      distances = Present [[round_double 0.1, round_double 0.6, round_double 1.3]]\<rparr>"

definition three_collection :: collection where
  "three_collection =
     \<lparr>collection_count = Inr 3, collection_query = (\<lambda>v k. Inr three_results)\<rparr>"

definition unlabelled_results :: search_results where
  "unlabelled_results =
     \<lparr>documents = Present [[''a'']], metadatas = Present [[]],
      distances = Present [[round_double 0.1]]\<rparr>"

definition unlabelled_collection :: collection where
  "unlabelled_collection =
     \<lparr>collection_count = Inr 1, collection_query = (\<lambda>v k. Inr unlabelled_results)\<rparr>"

definition bare_results :: search_results where
  "bare_results = \<lparr>documents = Present [[''a'']], metadatas = Absent, distances = Absent\<rparr>"

definition bare_collection :: collection where
  "bare_collection =
     \<lparr>collection_count = Inr 1, collection_query = (\<lambda>v k. Inr bare_results)\<rparr>"

definition undistanced_results :: search_results where
  "undistanced_results =
     \<lparr>documents = Present [[''a'', ''b'']],
      metadatas = Present [[[(''source'', StrV ''x.txt'')], [(''source'', StrV ''y.txt'')]]],
      distances = Absent\<rparr>"

definition undistanced_collection :: collection where
  "undistanced_collection =
     \<lparr>collection_count = Inr 2, collection_query = (\<lambda>v k. Inr undistanced_results)\<rparr>"

definition empty_collection :: collection where
  "empty_collection =
     \<lparr>collection_count = Inr 0,
      collection_query = (\<lambda>v k. Inr \<lparr>documents = Present [[]], metadatas = Present [[]],
                                          distances = Present [[]]\<rparr>)\<rparr>"

section \<open>Prompt composition\<close>

text \<open>\<^verbatim>\<open>sep.join(xs)\<close>, \<^verbatim>\<open>str(n)\<close> for an integer, and \<^verbatim>\<open>d.get(k, default)\<close>.\<close>

fun join :: "string \<Rightarrow> string list \<Rightarrow> string" where
  "join sep [] = []"
| "join sep [x] = x"
| "join sep (x # y # ys) = x @ sep @ join sep (y # ys)"

fun nat_digits :: "nat \<Rightarrow> string" where
  "nat_digits n =
     (if n < 10 then [char_of (48 + n)] else nat_digits (n div 10) @ [char_of (48 + n mod 10)])"

definition py_str :: "pyval \<Rightarrow> string" where
  "py_str v = (case v of StrV s \<Rightarrow> s
               | IntV i \<Rightarrow> if i < 0 then CHR ''-'' # nat_digits (nat (- i)) else nat_digits (nat i))"

definition dict_get :: "metadata \<Rightarrow> string \<Rightarrow> pyval \<Rightarrow> pyval" where
  "dict_get d k dflt = (case map_of d k of None \<Rightarrow> dflt | Some v \<Rightarrow> v)"

text \<open>The context section shared by \<^verbatim>\<open>RAGService.format_prompt_with_context\<close> and \<^verbatim>\<open>RAGService.chat\<close>.\<close>

definition context_text :: "context_record list \<Rightarrow> string" where
  "context_text contexts =
     join ''\<newline>\<newline>''
       (map (\<lambda>ctx. ''[Source: '' @ py_str (dict_get (ctx_metadata ctx) ''source'' (StrV ''Unknown''))
                    @ '']\<newline>'' @ ctx_text ctx) contexts)"

definition default_system_prompt :: string where
  "default_system_prompt =
     ''You are HMO Buddy, a helpful assistant for Health Maintenance Organization (HMO) queries.\<newline>\<newline>'' @
     ''INSTRUCTIONS:\<newline>'' @
     ''1. Use the CONTEXT below to answer the user's question\<newline>'' @
     ''2. If the context contains the answer, provide a clear and specific response based on it\<newline>'' @
     ''3. If the context doesn't contain relevant information, say so clearly and then provide general guidance if appropriate\<newline>'' @
     ''4. Always be helpful, clear, and professional''"

text \<open>\<^verbatim>\<open>RAGService.format_prompt_with_context\<close>.\<close>

definition format_prompt_with_context ::
  "string \<Rightarrow> context_record list \<Rightarrow> string option \<Rightarrow> string" where
  "format_prompt_with_context query contexts system_prompt =
     (if contexts = [] then query
      else (let system_prompt' =
                  (case system_prompt of None \<Rightarrow> default_system_prompt | Some p \<Rightarrow> p)
            in system_prompt' @ ''\<newline>\<newline>CONTEXT:\<newline>'' @ context_text contexts @
               ''\<newline>\<newline>USER QUESTION:\<newline>'' @ query @ ''\<newline>\<newline>ANSWER:''))"

text \<open>
  What a call of the language model gives back: the whole answer, or with streaming the
  contents of the chunks that have one.
\<close>

datatype reply = Text string | Fragments "string list"

definition invoke ::
  "ollama \<Rightarrow> rag_service \<Rightarrow> message list \<Rightarrow> bool \<Rightarrow> call list \<Rightarrow> (error + reply) \<times> call list" where
  "invoke svc self messages stream calls =
     (let calls' = calls @ [ChatCall (llm_model self) messages stream] in
      if stream then
        (case ollama_chat_stream svc (llm_model self) messages of
           Inl e \<Rightarrow> (Inl e, calls')
         | Inr chunks \<Rightarrow> (Inr (Fragments (List.map_filter id chunks)), calls'))
      else
        (case ollama_chat svc (llm_model self) messages of
           Inl e \<Rightarrow> (Inl e, calls')
         | Inr answer \<Rightarrow> (Inr (Text answer), calls')))"

text \<open>
  The first step of \<^verbatim>\<open>generate_response\<close> and of \<^verbatim>\<open>chat\<close>: the contexts, retrieved with
  the default threshold \<open>0.0\<close> when \<^verbatim>\<open>use_context\<close> holds.
\<close>

definition contexts_for ::
  "ollama \<Rightarrow> rag_service \<Rightarrow> string \<Rightarrow> bool \<Rightarrow> int \<Rightarrow> (error + context_record list) \<times> call list" where
  "contexts_for svc self query use_context n_context_docs =
     (if use_context then retrieve_context svc self query n_context_docs 0 else (Inr [], []))"

text \<open>\<^verbatim>\<open>RAGService.generate_response\<close>: an error is logged and raised again.\<close>

definition generate_response ::
  "ollama \<Rightarrow> rag_service \<Rightarrow> string \<Rightarrow> bool \<Rightarrow> int \<Rightarrow> string option \<Rightarrow> bool \<Rightarrow>
   (error + reply) \<times> call list" where
  "generate_response svc self query use_context n_context_docs system_prompt stream =
     (case contexts_for svc self query use_context n_context_docs of
        (Inl e, calls) \<Rightarrow> (Inl e, calls)
      | (Inr contexts, calls) \<Rightarrow>
          (let prompt = (if contexts \<noteq> []
                         then format_prompt_with_context query contexts system_prompt
                         else query)
           in invoke svc self [\<lparr>role = ''user'', content = prompt\<rparr>] stream calls))"

definition context_system_message :: "context_record list \<Rightarrow> string" where
  "context_system_message contexts =
     ''You are HMO Buddy, a helpful assistant for Health Maintenance Organization (HMO) queries.\<newline>\<newline>'' @
     ''IMPORTANT INSTRUCTIONS:\<newline>'' @
     ''- Answer questions using the CONTEXT provided below\<newline>'' @
     ''- If the context contains relevant information, base your answer on it\<newline>'' @
     ''- Be specific and cite information from the context when applicable\<newline>'' @
     ''- If the context doesn't contain the answer, clearly state that and provide general guidance if appropriate\<newline>'' @
     ''- Always be helpful, professional, and accurate\<newline>\<newline>'' @
     ''CONTEXT:\<newline>'' @ context_text contexts @ ''\<newline>''"

definition no_context_system_message :: string where
  "no_context_system_message =
     ''You are HMO Buddy, a helpful assistant for Health Maintenance Organization (HMO) queries. '' @
     ''Provide accurate and helpful information based on your knowledge.''"

text \<open>
  The message list built by \<^verbatim>\<open>RAGService.chat\<close>: a system message in both branches, the
  last ten messages of the history, the query.
\<close>

definition chat_messages ::
  "string \<Rightarrow> message list option \<Rightarrow> context_record list \<Rightarrow> message list" where
  "chat_messages query conversation_history contexts =
     [\<lparr>role = ''system'',
       content = (if contexts \<noteq> [] then context_system_message contexts
                  else no_context_system_message)\<rparr>] @
     (case conversation_history of
        None \<Rightarrow> []
      | Some history \<Rightarrow> if history \<noteq> [] then drop (length history - 10) history else []) @
     [\<lparr>role = ''user'', content = query\<rparr>]"

text \<open>\<^verbatim>\<open>RAGService.chat\<close>: an error is logged and raised again.\<close>

definition chat ::
  "ollama \<Rightarrow> rag_service \<Rightarrow> string \<Rightarrow> message list option \<Rightarrow> bool \<Rightarrow> int \<Rightarrow> bool \<Rightarrow>
   (error + reply) \<times> call list" where
  "chat svc self query conversation_history use_context n_context_docs stream =
     (case contexts_for svc self query use_context n_context_docs of
        (Inl e, calls) \<Rightarrow> (Inl e, calls)
      | (Inr contexts, calls) \<Rightarrow>
          invoke svc self (chat_messages query conversation_history contexts) stream calls)"

text \<open>
  The message list built by \<^verbatim>\<open>ImprovedRAGService.chat\<close>: a system message only when there
  are contexts, the whole history, the query.
\<close>

definition improved_context_text :: "context_record list \<Rightarrow> string" where
  "improved_context_text contexts =
     join ''\<newline>\<newline>''
       (map (\<lambda>(i, ctx). ''[Document '' @ nat_digits i @ '' from '' @
                         py_str (dict_get (ctx_metadata ctx) ''source'' (StrV ''Unknown'')) @
                         '']:\<newline>'' @ ctx_text ctx)
          (List.enumerate 1 contexts))"

definition improved_system_message :: "context_record list \<Rightarrow> string" where
  "improved_system_message contexts =
     ''You are a helpful assistant. Use the following documents to answer questions:\<newline>\<newline>'' @
     replicate 50 CHR ''='' @ ''\<newline>'' @
     improved_context_text contexts @ ''\<newline>'' @
     replicate 50 CHR ''='' @ ''\<newline>\<newline>'' @
     ''When answering:\<newline>'' @
     ''- Base your response on the documents above when relevant\<newline>'' @
     ''- Reference specific documents when appropriate\<newline>'' @
     ''- Use general knowledge to supplement if needed, but be clear about it''"

definition improved_chat_messages ::
  "string \<Rightarrow> message list option \<Rightarrow> context_record list \<Rightarrow> message list" where
  "improved_chat_messages query conversation_history contexts =
     (if contexts \<noteq> [] then [\<lparr>role = ''system'', content = improved_system_message contexts\<rparr>]
      else []) @
     (case conversation_history of
        None \<Rightarrow> []
      | Some history \<Rightarrow> if history \<noteq> [] then history else []) @
     [\<lparr>role = ''user'', content = query\<rparr>]"

section \<open>Chunk metadata in \<^verbatim>\<open>process_document\<close>\<close>

text \<open>
  Dictionaries are objects: a heap holds them, and a reference is an index into the heap.
  \<open>alloc\<close> puts a new dictionary at a fresh address.
\<close>

type_synonym heap = "metadata list"

definition alloc :: "heap \<Rightarrow> metadata \<Rightarrow> heap \<times> nat" where
  "alloc h d = (h @ [d], length h)"

record processed_chunk =
  pc_text :: string
  pc_metadata :: nat

text \<open>\<^verbatim>\<open>os.path.basename\<close>: what follows the last slash.\<close>

definition basename :: "string \<Rightarrow> string" where
  "basename p = rev (takeWhile (\<lambda>c. c \<noteq> CHR ''/'') (rev p))"

text \<open>
  The loop over \<^verbatim>\<open>enumerate(chunks)\<close>: \<^verbatim>\<open>base_metadata.copy()\<close> is a new dictionary, which
  then gets its two keys.
\<close>

fun annotate ::
  "heap \<Rightarrow> nat \<Rightarrow> nat \<Rightarrow> (nat \<times> string) list \<Rightarrow> processed_chunk list \<Rightarrow>
   heap \<times> processed_chunk list" where
  "annotate h base_metadata n_chunks [] processed_chunks = (h, processed_chunks)"
| "annotate h base_metadata n_chunks ((i, chunk) # rest) processed_chunks =
     (let (h1, chunk_metadata) = alloc h (h ! base_metadata);
          h2 = h1[chunk_metadata :=
                    AList.update ''chunk_index'' (IntV (int i)) (h1 ! chunk_metadata)];
          h3 = h2[chunk_metadata :=
                    AList.update ''total_chunks'' (IntV (int n_chunks)) (h2 ! chunk_metadata)]
      in annotate h3 base_metadata n_chunks rest
           (processed_chunks @ [\<lparr>pc_text = chunk, pc_metadata = chunk_metadata\<rparr>]))"

text \<open>
  The metadata step of \<^verbatim>\<open>process_document\<close>. \<^verbatim>\<open>metadata or {}\<close> is the caller's own
  dictionary unless that is \<^verbatim>\<open>None\<close> or empty; \<^verbatim>\<open>update\<close> then writes into it.
\<close>

definition annotate_chunks ::
  "heap \<Rightarrow> string \<Rightarrow> nat option \<Rightarrow> string list \<Rightarrow> heap \<times> processed_chunk list" where
  "annotate_chunks h file_path metadata_ref chunks =
     (let file_name = basename file_path;
          (h1, base_metadata) =
             (case metadata_ref of
                None \<Rightarrow> alloc h []
              | Some a \<Rightarrow> if h ! a \<noteq> [] then (h, a) else alloc h []);
          h2 = h1[base_metadata :=
                    AList.update ''file_path'' (StrV file_path)
                      (AList.update ''source'' (StrV file_name) (h1 ! base_metadata))]
      in annotate h2 base_metadata (length chunks) (List.enumerate 0 chunks) [])"

text \<open>
  \<^verbatim>\<open>process_document\<close> on the text that \<^verbatim>\<open>load_document\<close> returned or the error it raised;
  the error is logged and raised again.
\<close>

definition process_document ::
  "nat \<Rightarrow> document_processor \<Rightarrow> heap \<Rightarrow> string \<Rightarrow> error + string \<Rightarrow> nat option \<Rightarrow>
   (error + heap \<times> processed_chunk list) option" where
  "process_document n self h file_path loaded metadata_ref =
     (case loaded of
        Inl e \<Rightarrow> Some (Inl e)
      | Inr text \<Rightarrow>
          (case chunk_text n self text of
             None \<Rightarrow> None
           | Some chunks \<Rightarrow> Some (Inr (annotate_chunks h file_path metadata_ref chunks))))"

section \<open>Facts about the rounding of floats\<close>

lemma bit_length_bounds:
  "0 < n \<Longrightarrow> 2 ^ (bit_length n - 1) \<le> n \<and> n < 2 ^ bit_length n"
proof (induction n rule: bit_length.induct)
  case (1 n)
  show ?case
  proof (cases "n div 2 = 0")
    case True
    with "1.prems" have "n = 1" by presburger
    then show ?thesis by (simp add: bit_length.simps)
  next
    case False
    with "1.IH" "1.prems" have ih: "2 ^ (bit_length (n div 2) - 1) \<le> n div 2"
      "n div 2 < 2 ^ bit_length (n div 2)" by simp_all
    have pos: "0 < bit_length (n div 2)"
      using False by (simp add: bit_length.simps [of "n div 2"])
    have b: "bit_length n = Suc (bit_length (n div 2))"
      using "1.prems" by (simp add: bit_length.simps [of n])
    from pos have "(2::nat) ^ bit_length (n div 2) = 2 * 2 ^ (bit_length (n div 2) - 1)"
      by (cases "bit_length (n div 2)") simp_all
    with ih show ?thesis unfolding b by simp linarith
  qed
qed

lemma binade_bounds:
  assumes "x \<noteq> 0"
  shows "pow2 (binade x) \<le> \<bar>x\<bar> \<and> \<bar>x\<bar> < pow2 (binade x + 1)"
proof (cases "1 \<le> \<bar>x\<bar>")
  case True
  define n where "n = nat \<lfloor>\<bar>x\<bar>\<rfloor>"
  define k where "k = bit_length n"
  from True have f: "1 \<le> \<lfloor>\<bar>x\<bar>\<rfloor>" by (simp add: le_floor_iff)
  then have n: "0 < n" "real n = of_int \<lfloor>\<bar>x\<bar>\<rfloor>" by (simp_all add: n_def)
  have n': "real n \<le> \<bar>x\<bar>" "\<bar>x\<bar> < real n + 1" unfolding n(2) by linarith+
  from bit_length_bounds [OF n(1)] have b: "2 ^ (k - 1) \<le> n" "n < 2 ^ k" by (simp_all add: k_def)
  have k: "0 < k" using n(1) by (simp add: k_def bit_length.simps [of n])
  have r1: "(2::real) ^ (k - 1) \<le> real n"
  proof -
    from b(1) have "real (2 ^ (k - 1)) \<le> real n" by (rule iffD2 [OF of_nat_le_iff])
    then show ?thesis by simp
  qed
  have r2: "real n + 1 \<le> 2 ^ k"
  proof -
    from b(2) have "Suc n \<le> 2 ^ k" by simp
    then have "real (Suc n) \<le> real (2 ^ k)" by (rule iffD2 [OF of_nat_le_iff])
    then show ?thesis by simp
  qed
  from r1 n'(1) have "2 ^ (k - 1) \<le> \<bar>x\<bar>" by linarith
  moreover from r2 n'(2) have "\<bar>x\<bar> < 2 ^ k" by linarith
  moreover have "binade x = int k - 1" using True by (simp add: binade_def k_def n_def)
  ultimately show ?thesis using k by (simp add: pow2_def nat_diff_distrib)
next
  case False
  define y where "y = 1 / \<bar>x\<bar>"
  define m where "m = nat (\<lceil>y\<rceil> - 1)"
  define k where "k = bit_length m"
  from False assms have y: "1 < y" by (simp add: y_def)
  then have c: "2 \<le> \<lceil>y\<rceil>" by (simp add: le_ceiling_iff)
  then have m: "0 < m" "int m = \<lceil>y\<rceil> - 1" by (simp_all add: m_def)
  from bit_length_bounds [OF m(1)] have b: "2 ^ (k - 1) \<le> m" "m < 2 ^ k" by (simp_all add: k_def)
  have k: "0 < k" using m(1) by (simp add: k_def bit_length.simps [of m])
  have "\<lceil>y\<rceil> \<le> 2 ^ k"
  proof -
    from b(2) have "int m < int (2 ^ k)" by (rule iffD2 [OF of_nat_less_iff])
    with m(2) show ?thesis by simp
  qed
  then have up: "y \<le> 2 ^ k" by (simp add: ceiling_le_iff)
  have "(2::int) ^ (k - 1) < \<lceil>y\<rceil>"
  proof -
    from b(1) have "int (2 ^ (k - 1)) \<le> int m" by (rule iffD2 [OF of_nat_le_iff])
    with m(2) show ?thesis by simp
  qed
  then have lo: "2 ^ (k - 1) < y" by (simp add: less_ceiling_iff)
  have xy: "\<bar>x\<bar> = 1 / y" using assms by (simp add: y_def)
  have "1 / 2 ^ k \<le> \<bar>x\<bar>" unfolding xy using up y by (simp add: field_simps)
  moreover have "\<bar>x\<bar> < 1 / 2 ^ (k - 1)" unfolding xy using lo y by (simp add: field_simps)
  moreover have "binade x = - int k" using False by (simp add: binade_def k_def m_def y_def)
  ultimately show ?thesis using k
    by (cases "k = 1") (simp_all add: pow2_def nat_diff_distrib)
qed

lemma round_double_one: "round_double 1 = 1"
  by code_simp

lemma round_half_even_nearest: "\<bar>of_int (round_half_even y) - y\<bar> \<le> 1 / 2"
  by (simp add: round_half_even_def Let_def)

lemma pow2_pos: "0 < pow2 k"
  by (simp add: pow2_def)

text \<open>The rounded value is within half a unit in the last place of the exact one.\<close>

lemma round_double_error:
  "\<bar>round_double x - x\<bar> \<le> pow2 (max (binade x - 52) (- 1074)) / 2"
proof (cases "x = 0")
  case True
  then show ?thesis using pow2_pos [of "max (binade 0 - 52) (- 1074)"] by (simp add: round_double_def)
next
  case False
  define q where "q = pow2 (max (binade x - 52) (- 1074))"
  have q: "0 < q" by (simp add: q_def pow2_pos)
  have "round_double x - x = (of_int (round_half_even (x / q)) - x / q) * q"
    using False q by (simp add: round_double_def q_def [symmetric] Let_def algebra_simps)
  then have "\<bar>round_double x - x\<bar> = \<bar>of_int (round_half_even (x / q)) - x / q\<bar> * q"
    using q by (simp add: abs_mult)
  also have "\<dots> \<le> 1 / 2 * q"
    using round_half_even_nearest [of "x / q"] q by (intro mult_right_mono) simp_all
  finally show ?thesis by (simp add: q_def)
qed

text \<open>The doubles of the literals used below, and the differences computed from them.\<close>

lemma double_tenth: "round_double (1 / 10) = 3602879701896397 / 36028797018963968"
  by (simp add: round_double_def binade_def bit_length.simps pow2_def round_half_even_def Let_def)

lemma double_six_tenths: "round_double (6 / 10) = 5404319552844595 / 9007199254740992"
  by (simp add: round_double_def binade_def bit_length.simps pow2_def round_half_even_def Let_def)

lemma double_thirteen_tenths: "round_double (13 / 10) = 5854679515581645 / 4503599627370496"
  by (simp add: round_double_def binade_def bit_length.simps pow2_def round_half_even_def Let_def)

lemma double_nine_tenths: "round_double (9 / 10) = 8106479329266893 / 9007199254740992"
  by (simp add: round_double_def binade_def bit_length.simps pow2_def round_half_even_def Let_def)

lemma double_four_tenths: "round_double (4 / 10) = 3602879701896397 / 9007199254740992"
  by (simp add: round_double_def binade_def bit_length.simps pow2_def round_half_even_def Let_def)

lemma double_minus_three_tenths:
  "round_double (- (3 / 10)) = - (5404319552844595 / 18014398509481984)"
  by (simp add: round_double_def binade_def bit_length.simps pow2_def round_half_even_def Let_def)

lemma one_minus_tenth:
  "round_double (1 - 3602879701896397 / 36028797018963968) = 8106479329266893 / 9007199254740992"
  by (simp add: round_double_def binade_def bit_length.simps pow2_def round_half_even_def Let_def)

lemma one_minus_six_tenths:
  "round_double (1 - 5404319552844595 / 9007199254740992) = 3602879701896397 / 9007199254740992"
  by (simp add: round_double_def binade_def bit_length.simps pow2_def round_half_even_def Let_def)

lemma one_minus_thirteen_tenths:
  "round_double (1 - 5854679515581645 / 4503599627370496) = - (1351079888211149 / 4503599627370496)"
  by (simp add: round_double_def binade_def bit_length.simps pow2_def round_half_even_def Let_def)

text \<open>
  A distance of \<^verbatim>\<open>1e-17\<close> is lost in the subtraction: the similarity is exactly 1.
\<close>

lemma double_tiny: "round_double (1 / 100000000000000000) = 6490371073168535 / 2 ^ 109"
  by (simp add: round_double_def binade_def bit_length.simps pow2_def round_half_even_def Let_def)

lemma one_minus_tiny: "round_double (1 - round_double (1 / 100000000000000000)) = 1"
  by (simp add: double_tiny)
     (simp add: round_double_def binade_def bit_length.simps pow2_def round_half_even_def Let_def)

section \<open>Facts about the string primitives\<close>

lemma rscan_range:
  "rscan text c lo hi = - 1 \<or> (int lo \<le> rscan text c lo hi \<and> rscan text c lo hi < int hi)"
  by (induction hi) auto

lemma rscan_found:
  "lo \<le> p \<Longrightarrow> p < hi \<Longrightarrow> text ! p = c \<Longrightarrow> (\<forall>j. p < j \<and> j < hi \<longrightarrow> text ! j \<noteq> c)
     \<Longrightarrow> rscan text c lo hi = int p"
proof (induction hi)
  case 0
  then show ?case by simp
next
  case (Suc hi)
  show ?case
  proof (cases "p = hi")
    case True
    with Suc.prems show ?thesis by simp
  next
    case False
    with Suc.prems have "p < hi" by simp
    moreover from Suc.prems \<open>p < hi\<close> have "text ! hi \<noteq> c" by simp
    moreover from Suc.prems have "\<forall>j. p < j \<and> j < hi \<longrightarrow> text ! j \<noteq> c" by simp
    ultimately show ?thesis using Suc.IH Suc.prems by simp
  qed
qed

lemma rscan_none:
  "(\<forall>j. lo \<le> j \<and> j < hi \<longrightarrow> text ! j \<noteq> c) \<Longrightarrow> rscan text c lo hi = - 1"
  by (induction hi) auto

lemma rscan_hit:
  "rscan text c lo hi \<noteq> - 1 \<Longrightarrow> text ! nat (rscan text c lo hi) = c"
  by (induction hi) (auto split: if_splits)

lemma rscan_last:
  "rscan text c lo hi < int j \<Longrightarrow> lo \<le> j \<Longrightarrow> j < hi \<Longrightarrow> text ! j \<noteq> c"
  by (induction hi) (auto split: if_splits simp: less_Suc_eq)

lemma rfind_window:
  assumes "0 \<le> start" "0 \<le> end'" "end' \<le> int (length text)"
  shows "rfind text c start end' = rscan text c (nat start) (nat end')"
  using assms by (simp add: rfind_def Let_def)

lemma rfind_range:
  assumes "0 \<le> start" "0 \<le> end'" "end' \<le> int (length text)"
  shows "rfind text c start end' = - 1 \<or> (start \<le> rfind text c start end' \<and> rfind text c start end' < end')"
  using rscan_range [of "text" c "nat start" "nat end'"] assms
  by (simp add: rfind_window)

lemma dropWhile_all_iff: "(\<forall>x\<in>set (dropWhile P xs). P x) \<longleftrightarrow> (\<forall>x\<in>set xs. P x)"
proof
  assume a: "\<forall>x\<in>set (dropWhile P xs). P x"
  have "dropWhile P xs = []"
  proof (rule ccontr)
    assume n: "dropWhile P xs \<noteq> []"
    then have "\<not> P (hd (dropWhile P xs))" by (rule hd_dropWhile)
    moreover from n have "hd (dropWhile P xs) \<in> set (dropWhile P xs)" by simp
    ultimately show False using a by blast
  qed
  then show "\<forall>x\<in>set xs. P x" by (simp add: dropWhile_eq_Nil_conv)
next
  assume "\<forall>x\<in>set xs. P x"
  then show "\<forall>x\<in>set (dropWhile P xs). P x" by (auto dest: set_dropWhileD)
qed

lemma strip_empty_iff: "strip s = [] \<longleftrightarrow> (\<forall>c\<in>set s. isspace c)"
  by (simp add: strip_def dropWhile_eq_Nil_conv dropWhile_all_iff)

section \<open>Facts about the chunking loop\<close>

lemma cut_end_upper:
  assumes "0 \<le> start" "0 \<le> chunk_size self"
  shows "cut_end self text start \<le> start + chunk_size self"
proof (cases "start + chunk_size self < int (length text)")
  case True
  with assms have w: "0 \<le> start + chunk_size self" "start + chunk_size self \<le> int (length text)"
    by simp_all
  from rfind_range [OF assms(1) w, of "CHR ''.''"] rfind_range [OF assms(1) w, of "CHR '' ''"]
  show ?thesis by (auto simp: cut_end_def Let_def)
next
  case False
  then show ?thesis by (simp add: cut_end_def Let_def)
qed

lemma cut_end_lower:
  assumes "0 < chunk_size self"
  shows "start + chunk_size self div 2 + 1 \<le> cut_end self text start"
proof -
  from assms have "chunk_size self div 2 + 1 \<le> chunk_size self" by simp
  then show ?thesis by (auto simp: cut_end_def Let_def)
qed

lemma cut_end_last:
  "int (length text) \<le> start + chunk_size self \<Longrightarrow> cut_end self text start = start + chunk_size self"
  by (simp add: cut_end_def Let_def)

lemma slice_whole:
  "int (length text) \<le> end' \<Longrightarrow> slice text 0 end' = text"
  by (simp add: slice_def slice_index_def Let_def)

lemma chunk_loop_spans:
  "chunk_loop n self text start chunks =
     map_option (\<lambda>spans. chunks @ emitted text spans) (span_loop n self text start)"
proof (induction n arbitrary: start chunks)
  case 0
  then show ?case by (simp add: emitted_def)
next
  case (Suc n)
  show ?case
    by (simp add: Suc.IH Let_def emitted_def option.map_comp comp_def)
qed

text \<open>
  A larger bound on the iterations does not change a result, so the result of a call does
  not depend on the bound under which it is computed.
\<close>

lemma chunk_loop_more_fuel:
  "chunk_loop n self text start chunks = Some r \<Longrightarrow>
   chunk_loop (n + k) self text start chunks = Some r"
proof (induction n arbitrary: start chunks)
  case 0
  then show ?case by (cases k) (simp_all split: if_splits)
next
  case (Suc n)
  show ?case
  proof (cases "start < int (length text)")
    case False
    with Suc.prems show ?thesis by simp
  next
    case True
    define end' where "end' = cut_end self text start"
    define chunk where "chunk = strip (slice text start end')"
    define chunks' where "chunks' = (if chunk \<noteq> [] then chunks @ [chunk] else chunks)"
    define start' where "start' = end' - chunk_overlap self"
    have step: "chunk_loop (Suc m) self text start chunks =
        (if start' \<le> 0 \<or> start' \<ge> int (length text) then Some chunks'
         else chunk_loop m self text start' chunks')" for m
      by (simp only: chunk_loop.simps Let_def True if_True end'_def chunk_def chunks'_def
          start'_def)
    show ?thesis
    proof (cases "start' \<le> 0 \<or> start' \<ge> int (length text)")
      case stop: True
      from Suc.prems have "chunks' = r" by (simp only: step stop if_True option.inject)
      then show ?thesis using step [of "n + k"] stop by simp
    next
      case go: False
      from Suc.prems have "chunk_loop n self text start' chunks' = Some r"
        by (simp only: step go if_False)
      then have "chunk_loop (n + k) self text start' chunks' = Some r" by (rule Suc.IH)
      then show ?thesis using step [of "n + k"] go by simp
    qed
  qed
qed

lemma chunk_text_deterministic:
  assumes "chunk_text n self text = Some r" "chunk_text m self text = Some r'"
  shows "r = r'"
proof -
  from assms(1) have "chunk_loop (n + m) self text 0 [] = Some r"
    unfolding chunk_text_def by (rule chunk_loop_more_fuel)
  moreover from assms(2) have "chunk_loop (m + n) self text 0 [] = Some r'"
    unfolding chunk_text_def by (rule chunk_loop_more_fuel)
  ultimately show ?thesis by (simp add: add.commute)
qed

lemma ceil_div_covers:
  assumes "0 < d" "0 \<le> a"
  shows "a \<le> int (nat (ceil_div a d)) * d"
proof -
  have "(- a) div d * d \<le> - a"
    using assms(1) by (metis div_mult_mod_eq  pos_mod_sign add.commute le_add_same_cancel2)
  then have "a \<le> ceil_div a d * d" by (simp add: ceil_div_def)
  moreover have "0 \<le> ceil_div a d"
    using assms div_nonpos_pos_le0 [of "- a" d] by (simp add: ceil_div_def)
  ultimately show ?thesis by simp
qed

lemma ceil_div_ceiling:
  "0 < d \<Longrightarrow> ceil_div a d = \<lceil>real_of_int a / real_of_int d\<rceil>"
  by (simp add: ceil_div_def ceiling_divide_eq_div)

lemma chunk_loop_terminates:
  assumes "0 < chunk_size self" "chunk_overlap self \<le> chunk_size self div 2"
  shows "0 \<le> start \<Longrightarrow>
         int (length text) - start \<le> int n * (chunk_size self div 2 + 1 - chunk_overlap self) \<Longrightarrow>
         \<exists>r. chunk_loop n self text start chunks = Some r"
proof (induction n arbitrary: start chunks)
  case 0
  then show ?case by simp
next
  case (Suc n)
  define d where "d = chunk_size self div 2 + 1 - chunk_overlap self"
  define start' where "start' = cut_end self text start - chunk_overlap self"
  have "start + d \<le> start'"
    using cut_end_lower [OF assms(1), of start "text"] by (simp add: d_def start'_def)
  moreover have "1 \<le> d" using assms(2) by (simp add: d_def)
  moreover have "int (length text) - start \<le> int n * d + d"
    using Suc.prems(2) by (simp add: d_def algebra_simps)
  ultimately have s: "0 \<le> start'" "int (length text) - start' \<le> int n * d"
    using Suc.prems(1) by linarith+
  from Suc.IH [OF s(1)] s(2) have "\<exists>r. chunk_loop n self text start' chunks' = Some r" for chunks'
    by (simp add: d_def)
  then show ?case
    by (simp add: Let_def start'_def)
qed

lemma span_loop_covers:
  assumes "0 < chunk_size self" "0 \<le> chunk_overlap self" "chunk_overlap self \<le> chunk_size self div 2"
  shows "span_loop n self text start = Some spans \<Longrightarrow> 0 \<le> start \<Longrightarrow> start \<le> i \<Longrightarrow>
         i < int (length text) \<Longrightarrow> covered spans i"
proof (induction n arbitrary: start spans)
  case 0
  then show ?case by (simp split: if_splits)
next
  case (Suc n)
  define end' where "end' = cut_end self text start"
  define start' where "start' = end' - chunk_overlap self"
  have lo: "start + 1 \<le> start'"
    using cut_end_lower [OF assms(1), of start "text"] assms(3) by (simp add: end'_def start'_def)
  from Suc.prems have run: "start < int (length text)" by simp
  show ?case
  proof (cases "int (length text) \<le> start'")
    case True
    with Suc.prems(1,2) run lo have "spans = [(start, end')]"
      by (auto simp: Let_def end'_def start'_def split: if_splits)
    moreover from True assms(2) Suc.prems(4) have "i < end'" by (simp add: start'_def)
    ultimately show ?thesis using Suc.prems(3) by (simp add: covered_def)
  next
    case False
    with Suc.prems(1,2) run lo obtain rest where
      rest: "span_loop n self text start' = Some rest" and spans: "spans = (start, end') # rest"
      by (auto simp: Let_def end'_def start'_def split: if_splits)
    show ?thesis
    proof (cases "i < end'")
      case True
      with Suc.prems(3) spans show ?thesis by (simp add: covered_def)
    next
      case False
      with assms(2) have "start' \<le> i" by (simp add: start'_def)
      from Suc.IH [OF rest _ this Suc.prems(4)] lo Suc.prems(2) have "covered rest i" by simp
      with spans show ?thesis by (simp add: covered_def)
    qed
  qed
qed

text \<open>
  With chunk size 3 and overlap 2 on the text \<^verbatim>\<open>aaa a\<close> the loop never leaves its body: the
  second window \<open>[1, 4)\<close> is cut at the space at index 3, and \<open>start = 3 - 2 = 1\<close> again.
  The guard \<^verbatim>\<open>start <= 0 or start >= text_length\<close> does not fire, so no bound on the number
  of iterations yields a result.
\<close>

lemma chunk_loop_stuck:
  "chunk_loop n (init 3 2) ''aaa a'' 1 chunks = None"
proof (induction n arbitrary: chunks)
  case 0
  then show ?case by simp
next
  case (Suc n)
  have "cut_end (init 3 2) ''aaa a'' 1 = 3" by code_simp
  moreover have "chunk_overlap (init 3 2) = 2" by (simp add: init_def)
  ultimately show ?case by (simp add: Suc.IH Let_def)
qed

lemma chunk_text_diverges:
  "chunk_text n (init 3 2) ''aaa a'' = None"
proof (cases n)
  case 0
  then show ?thesis by (simp add: chunk_text_def)
next
  case (Suc m)
  have "cut_end (init 3 2) ''aaa a'' 0 = 3" by code_simp
  moreover have "chunk_overlap (init 3 2) = 2" by (simp add: init_def)
  ultimately show ?thesis
    by (simp add: Suc chunk_text_def Let_def chunk_loop_stuck)
qed

section \<open>Coverage of the text by the chunk windows\<close>

text \<open>
  Claim C1, as the code has it. When the chunk size is positive and the overlap lies between
  0 and half the chunk size (integer division), the loop returns, its chunks are the
  non-empty stripped slices of its windows, and every index of the text lies in the
  window \<open>[start, end)\<close> of some iteration.
\<close>

theorem chunk_text_covers:
  assumes "0 < chunk_size self" "0 \<le> chunk_overlap self"
    "chunk_overlap self \<le> chunk_size self div 2"
  shows "\<exists>n spans. chunk_spans n self text = Some spans \<and>
           chunk_text n self text = Some (emitted text spans) \<and>
           (\<forall>i. 0 \<le> i \<and> i < int (length text) \<longrightarrow> covered spans i)"
proof -
  define n where "n = nat (ceil_div (int (length text))
                      (chunk_size self div 2 + 1 - chunk_overlap self))"
  from chunk_loop_terminates [OF assms(1,3), of 0 "text" n "[]"]
    ceil_div_covers [of "chunk_size self div 2 + 1 - chunk_overlap self" "int (length text)"] assms(3)
  obtain chunks where "chunk_loop n self text 0 [] = Some chunks"
    by (auto simp: n_def)
  then obtain spans where spans: "span_loop n self text 0 = Some spans"
    and chunks: "chunks = emitted text spans"
    by (auto simp: chunk_loop_spans)
  have "covered spans i" if "0 \<le> i" "i < int (length text)" for i
    using span_loop_covers [OF assms spans _ that] by simp
  with spans chunks show ?thesis
    by (auto simp: chunk_spans_def chunk_text_def chunk_loop_spans)
qed

text \<open>
  The coverage theorem at chunk size 10, overlap 2 and a text of twenty characters; the
  loop runs four times there.
\<close>

theorem chunk_text_covers_witness:
  "0 < chunk_size (init 10 2) \<and> 0 \<le> chunk_overlap (init 10 2) \<and>
   chunk_overlap (init 10 2) \<le> chunk_size (init 10 2) div 2 \<and>
   (\<exists>n spans. chunk_spans n (init 10 2) ''aaaaaa aaaaaa aaaaaa'' = Some spans \<and>
      chunk_text n (init 10 2) ''aaaaaa aaaaaa aaaaaa'' = Some (emitted ''aaaaaa aaaaaa aaaaaa'' spans) \<and>
      (\<forall>i. 0 \<le> i \<and> i < int (length ''aaaaaa aaaaaa aaaaaa'') \<longrightarrow> covered spans i)) \<and>
   chunk_spans 4 (init 10 2) ''aaaaaa aaaaaa aaaaaa'' =
     Some [(0, 6), (4, 13), (11, 21), (19, 29)]"
proof -
  have h1: "0 < chunk_size (init 10 2)" by (simp add: init_def)
  have h2: "0 \<le> chunk_overlap (init 10 2)" by (simp add: init_def)
  have h3: "chunk_overlap (init 10 2) \<le> chunk_size (init 10 2) div 2" by (simp add: init_def)
  have v: "chunk_spans 4 (init 10 2) ''aaaaaa aaaaaa aaaaaa'' =
     Some [(0, 6), (4, 13), (11, 21), (19, 29)]" by code_simp
  from chunk_text_covers [OF h1 h2 h3, of "''aaaaaa aaaaaa aaaaaa''"]
  show ?thesis using h1 h2 h3 v by blast
qed

text \<open>
  With chunk size 4 and overlap 3, a valid configuration, the first window of
  \<^verbatim>\<open>aaa aaaa\<close> is cut at the space at index 3; \<open>start = 3 - 3 = 0\<close> and the guard
  \<^verbatim>\<open>start <= 0\<close> leaves the loop. The only window is \<open>[0, 3)\<close>: index 4 of the text is in
  no window.
\<close>

theorem chunk_text_skips_counterexample:
  "0 < chunk_size (init 4 3) \<and> 0 \<le> chunk_overlap (init 4 3) \<and>
   chunk_overlap (init 4 3) < chunk_size (init 4 3) \<and>
   chunk_spans 1 (init 4 3) ''aaa aaaa'' = Some [(0, 3)] \<and>
   chunk_text 1 (init 4 3) ''aaa aaaa'' = Some [''aaa''] \<and>
   4 < int (length ''aaa aaaa'') \<and> \<not> covered [(0, 3)] 4"
  by code_simp

section \<open>Termination and the number of iterations\<close>

text \<open>
  Claim C4, as the code has it. When the chunk size is positive and the overlap is at most
  half the chunk size (integer division), every iteration moves \<open>start\<close> forward by at
  least \<open>chunk_size div 2 + 1 - chunk_overlap\<close>, and the loop returns within
  \<open>ceil (len text / (chunk_size div 2 + 1 - chunk_overlap))\<close> iterations.
\<close>

theorem chunk_text_terminates_within:
  assumes "0 < chunk_size self" "chunk_overlap self \<le> chunk_size self div 2"
  shows "\<exists>chunks. chunk_text (nat (ceil_div (int (length text))
                      (chunk_size self div 2 + 1 - chunk_overlap self))) self text = Some chunks"
proof -
  define d where "d = chunk_size self div 2 + 1 - chunk_overlap self"
  have "0 < d" using assms(2) by (simp add: d_def)
  from ceil_div_covers [OF this, of "int (length text)"]
  have "int (length text) - 0 \<le> int (nat (ceil_div (int (length text)) d)) * d" by simp
  from chunk_loop_terminates [OF assms _ this [unfolded d_def]]
  show ?thesis by (simp add: chunk_text_def d_def)
qed

text \<open>
  The termination bound at chunk size 10, overlap 2 and a text of twenty characters:
  five iterations suffice.
\<close>

theorem chunk_text_terminates_within_witness:
  "0 < chunk_size (init 10 2) \<and> chunk_overlap (init 10 2) \<le> chunk_size (init 10 2) div 2 \<and>
   nat (ceil_div (int (length ''aaaaaa aaaaaa aaaaaa''))
         (chunk_size (init 10 2) div 2 + 1 - chunk_overlap (init 10 2))) = 5 \<and>
   (\<exists>chunks. chunk_text 5 (init 10 2) ''aaaaaa aaaaaa aaaaaa'' = Some chunks)"
proof -
  have h1: "0 < chunk_size (init 10 2)" by (simp add: init_def)
  have h2: "chunk_overlap (init 10 2) \<le> chunk_size (init 10 2) div 2" by (simp add: init_def)
  have b: "nat (ceil_div (int (length ''aaaaaa aaaaaa aaaaaa''))
         (chunk_size (init 10 2) div 2 + 1 - chunk_overlap (init 10 2))) = 5"
    by (simp add: init_def ceil_div_def)
  from chunk_text_terminates_within [OF h1 h2, of "''aaaaaa aaaaaa aaaaaa''"]
  show ?thesis using h1 h2 b by simp
qed

text \<open>
  With chunk size 10 and overlap 0 on a text of twenty characters, the bound
  \<open>ceil (20 / (10 - 0)) = 2\<close> is exceeded: the windows are cut at the spaces at indices 6 and
  13, and the loop needs three iterations.
\<close>

theorem chunk_text_bound_counterexample:
  "0 < chunk_size (init 10 0) \<and> 0 \<le> chunk_overlap (init 10 0) \<and>
   chunk_overlap (init 10 0) < chunk_size (init 10 0) \<and>
   ceil_div (int (length ''aaaaaa aaaaaa aaaaaa'')) (chunk_size (init 10 0) - chunk_overlap (init 10 0)) = 2 \<and>
   chunk_text 2 (init 10 0) ''aaaaaa aaaaaa aaaaaa'' = None \<and>
   chunk_text 3 (init 10 0) ''aaaaaa aaaaaa aaaaaa'' = Some [''aaaaaa'', ''aaaaaa'', ''aaaaaa'']"
  by code_simp

section \<open>Texts shorter than the chunk size\<close>

text \<open>
  Claim C5, as the code has it. For a non-empty text shorter than the chunk size and no
  longer than \<open>chunk_size - chunk_overlap\<close>, under a valid configuration, the loop runs
  once: the result is the single chunk \<open>strip text\<close>, or no chunk at all when the text
  consists of whitespace only.
\<close>

theorem chunk_text_short_text:
  assumes "text \<noteq> []" "int (length text) < chunk_size self"
    "0 \<le> chunk_overlap self" "chunk_overlap self < chunk_size self"
    "int (length text) \<le> chunk_size self - chunk_overlap self"
  shows "chunk_text (Suc n) self text = Some (if strip text = [] then [] else [strip text])"
proof -
  have "cut_end self text 0 = chunk_size self"
    using assms(2) cut_end_last [of "text" 0 self] by simp
  moreover have "slice text 0 (chunk_size self) = text"
    using assms(2) by (simp add: slice_whole)
  ultimately show ?thesis
    using assms(1,5) by (simp add: chunk_text_def Let_def)
qed

text \<open>
  The short-text theorem at chunk size 10, overlap 2 and a text of eight characters.
\<close>

theorem chunk_text_short_text_witness:
  "''  hello '' \<noteq> [] \<and> int (length ''  hello '') < chunk_size (init 10 2) \<and>
   0 \<le> chunk_overlap (init 10 2) \<and> chunk_overlap (init 10 2) < chunk_size (init 10 2) \<and>
   int (length ''  hello '') \<le> chunk_size (init 10 2) - chunk_overlap (init 10 2) \<and>
   chunk_text (Suc 0) (init 10 2) ''  hello '' = Some [''hello'']"
proof -
  have h1: "''  hello '' \<noteq> []" by simp
  have h2: "int (length ''  hello '') < chunk_size (init 10 2)" by (simp add: init_def)
  have h3: "0 \<le> chunk_overlap (init 10 2)" by (simp add: init_def)
  have h4: "chunk_overlap (init 10 2) < chunk_size (init 10 2)" by (simp add: init_def)
  have h5: "int (length ''  hello '') \<le> chunk_size (init 10 2) - chunk_overlap (init 10 2)"
    by (simp add: init_def)
  have s: "strip ''  hello '' = ''hello''" by code_simp
  from chunk_text_short_text [OF h1 h2 h3 h4 h5, of 0]
  show ?thesis using h1 h2 h3 h4 h5 by (simp add: s)
qed

text \<open>
  Two short texts that do not give exactly one chunk: \<^verbatim>\<open>abcde\<close> with chunk size 10 and
  overlap 8 gives three chunks, since \<open>start = 10 - 8 = 2\<close> is still inside the text; a
  single space gives none.
\<close>

theorem chunk_text_short_text_counterexample:
  "''abcde'' \<noteq> [] \<and> int (length ''abcde'') < chunk_size (init 10 8) \<and>
   0 \<le> chunk_overlap (init 10 8) \<and> chunk_overlap (init 10 8) < chunk_size (init 10 8) \<and>
   chunk_text 3 (init 10 8) ''abcde'' = Some [''abcde'', ''cde'', ''e''] \<and>
   '' '' \<noteq> [] \<and> int (length '' '') < chunk_size (init 10 0) \<and>
   0 \<le> chunk_overlap (init 10 0) \<and> chunk_overlap (init 10 0) < chunk_size (init 10 0) \<and>
   chunk_text 1 (init 10 0) '' '' = Some []"
  by code_simp

section \<open>Configurations with a non-positive size or too large an overlap\<close>

text \<open>
  Claim C8, as the code has it. The constructor stores any two integers unchanged and
  \<^verbatim>\<open>chunk_text\<close> runs with them. With a chunk size \<open>\<ge> 0\<close> and an overlap \<open>\<ge>\<close> the chunk
  size, the loop returns normally after one iteration on a non-empty text, with at most
  one chunk, the stripped first window.
\<close>

theorem chunk_text_unvalidated:
  assumes "0 \<le> cs" "cs \<le> ov" "text \<noteq> []"
  shows "chunk_size (init cs ov) = cs \<and> chunk_overlap (init cs ov) = ov \<and>
         chunk_spans (Suc n) (init cs ov) text = Some [(0, cut_end (init cs ov) text 0)] \<and>
         chunk_text (Suc n) (init cs ov) text =
           Some (emitted text [(0, cut_end (init cs ov) text 0)])"
proof -
  have f: "chunk_size (init cs ov) = cs" "chunk_overlap (init cs ov) = ov"
    by (simp_all add: init_def)
  have "cut_end (init cs ov) text 0 \<le> cs"
    using cut_end_upper [of 0 "init cs ov" "text"] assms(1) f by simp
  with assms(2) have "cut_end (init cs ov) text 0 - ov \<le> 0" by simp
  with assms(3) f show ?thesis
    by (simp add: chunk_text_def chunk_spans_def chunk_loop_spans Let_def)
qed

text \<open>
  The theorem at chunk size 5, overlap 7 and a text of twelve characters.
\<close>

theorem chunk_text_unvalidated_witness:
  "(0::int) \<le> 5 \<and> (5::int) \<le> 7 \<and> ''abcdefghijkl'' \<noteq> [] \<and>
   chunk_size (init 5 7) = 5 \<and> chunk_overlap (init 5 7) = 7 \<and>
   chunk_spans (Suc 0) (init 5 7) ''abcdefghijkl'' = Some [(0, 5)] \<and>
   chunk_text (Suc 0) (init 5 7) ''abcdefghijkl'' = Some [''abcde'']"
proof -
  have h1: "(0::int) \<le> 5" by simp
  have h2: "(5::int) \<le> 7" by simp
  have h3: "''abcdefghijkl'' \<noteq> []" by simp
  have c: "cut_end (init 5 7) ''abcdefghijkl'' 0 = 5" by code_simp
  have e: "emitted ''abcdefghijkl'' [(0, 5)] = [''abcde'']" by code_simp
  from chunk_text_unvalidated [OF h1 h2 h3, of 0]
  show ?thesis by (simp add: c e)
qed

text \<open>
  Chunk size 0 with overlap 0, and chunk size 5 with overlap 7: no error is raised, the
  call returns a list.
\<close>

theorem chunk_text_unvalidated_counterexample:
  "chunk_size (init 0 0) \<le> 0 \<and> chunk_text 1 (init 0 0) ''ab'' = Some [] \<and>
   chunk_size (init 5 7) \<le> chunk_overlap (init 5 7) \<and>
   chunk_text 1 (init 5 7) ''abcdefghijkl'' = Some [''abcde'']"
  by code_simp

section \<open>The cut points of a window\<close>

lemma slice_nth_mem:
  assumes "0 \<le> a" "b \<le> int (length text)" "a \<le> int j" "int j < b"
  shows "text ! j \<in> set (slice text a b)"
proof -
  have s: "slice text a b = take (nat (b - a)) (drop (nat a) text)"
    using assms by (simp add: slice_def slice_index_def Let_def)
  have "j - nat a < length (take (nat (b - a)) (drop (nat a) text))"
    using assms by simp
  moreover have "take (nat (b - a)) (drop (nat a) text) ! (j - nat a) = text ! j"
    using assms by simp
  ultimately show ?thesis unfolding s by (metis nth_mem)
qed

lemma rscan_absent:
  assumes "c \<notin> set (slice text (int m) (int hi))" "hi \<le> length text"
  shows "rscan text c lo hi < int m \<or> rscan text c lo hi = - 1"
proof (rule ccontr)
  assume n: "\<not> (rscan text c lo hi < int m \<or> rscan text c lo hi = - 1)"
  define r where "r = rscan text c lo hi"
  from n rscan_range [of "text" c lo hi] have r: "int m \<le> r" "r < int hi" "r \<noteq> - 1"
    by (auto simp: r_def)
  then have "text ! nat r = c" using rscan_hit [of "text" c lo hi] by (simp add: r_def)
  moreover have "text ! nat r \<in> set (slice text (int m) (int hi))"
    using r assms(2) by (intro slice_nth_mem) auto
  ultimately show False using assms(1) by simp
qed

text \<open>
  Claim C6, as the code has it. For a window that ends before the end of the text, the
  cut is just after the last full stop of the window when that stop lies past the
  midpoint \<open>start + chunk_size div 2\<close>; failing that, at the last space of the window when
  that space lies past the midpoint; failing that, at the hard limit
  \<open>start + chunk_size\<close>. No other character, a line break included, moves the cut.
\<close>

theorem cut_end_priority:
  assumes "0 \<le> start" "0 < chunk_size self" "start + chunk_size self < int (length text)"
  shows
    "(\<forall>p. start + chunk_size self div 2 < int p \<and> int p < start + chunk_size self \<and>
          text ! p = CHR ''.'' \<and>
          CHR ''.'' \<notin> set (slice text (int p + 1) (start + chunk_size self))
          \<longrightarrow> cut_end self text start = int p + 1) \<and>
     (\<forall>q. CHR ''.'' \<notin> set (slice text (start + chunk_size self div 2 + 1) (start + chunk_size self)) \<and>
          start + chunk_size self div 2 < int q \<and> int q < start + chunk_size self \<and>
          text ! q = CHR '' '' \<and>
          CHR '' '' \<notin> set (slice text (int q + 1) (start + chunk_size self))
          \<longrightarrow> cut_end self text start = int q) \<and>
     (CHR ''.'' \<notin> set (slice text (start + chunk_size self div 2 + 1) (start + chunk_size self)) \<and>
      CHR '' '' \<notin> set (slice text (start + chunk_size self div 2 + 1) (start + chunk_size self))
      \<longrightarrow> cut_end self text start = start + chunk_size self)"
proof -
  define e where "e = start + chunk_size self"
  define m where "m = start + chunk_size self div 2"
  have e: "0 \<le> e" "e \<le> int (length text)" "e < int (length text)"
    using assms by (simp_all add: e_def)
  have m: "start \<le> m" "0 \<le> m" using assms by (simp_all add: m_def)
  have rf: "rfind text c start e = rscan text c (nat start) (nat e)" for c
    using assms(1) e by (simp add: rfind_window)
  have found: "rfind text c start e = int p"
    if "m < int p" "int p < e" "text ! p = c" "c \<notin> set (slice text (int p + 1) e)" for c p
  proof -
    have "text ! j \<noteq> c" if "p < j" "j < nat e" for j
    proof -
      from that have "int p + 1 \<le> int j" "int j < e" by linarith+
      from slice_nth_mem [OF _ e(2) this] have "text ! j \<in> set (slice text (int p + 1) e)"
        by simp
      with \<open>c \<notin> set (slice text (int p + 1) e)\<close> show ?thesis by auto
    qed
    then show ?thesis
      unfolding rf using that m by (intro rscan_found) auto
  qed
  have absent: "rfind text c start e = - 1 \<or> rfind text c start e \<le> m"
    if "c \<notin> set (slice text (m + 1) e)" for c
  proof -
    have "c \<notin> set (slice text (int (nat (m + 1))) (int (nat e)))"
      using that m e by simp
    moreover have "nat e \<le> length text" using e by linarith
    ultimately have "rscan text c (nat start) (nat e) < int (nat (m + 1)) \<or>
        rscan text c (nat start) (nat e) = - 1"
      by (rule rscan_absent)
    then show ?thesis
      unfolding rf using m by auto
  qed
  have A: "cut_end self text start = int p + 1"
    if "m < int p" "int p < e" "text ! p = CHR ''.''" "CHR ''.'' \<notin> set (slice text (int p + 1) e)" for p
    using found [OF that] that(1) e(3)
    by (simp add: cut_end_def Let_def e_def [symmetric] m_def [symmetric])
  have B: "cut_end self text start = int q"
    if "CHR ''.'' \<notin> set (slice text (m + 1) e)"
      "m < int q" "int q < e" "text ! q = CHR '' ''" "CHR '' '' \<notin> set (slice text (int q + 1) e)" for q
    using found [OF that(2-5)] absent [OF that(1)] that(2) e(3)
    by (auto simp: cut_end_def Let_def e_def [symmetric] m_def [symmetric])
  have C: "cut_end self text start = e"
    if "CHR ''.'' \<notin> set (slice text (m + 1) e)" "CHR '' '' \<notin> set (slice text (m + 1) e)"
    using absent [OF that(1)] absent [OF that(2)] e(3)
    by (auto simp: cut_end_def Let_def e_def [symmetric] m_def [symmetric])
  from A B C show ?thesis
    unfolding e_def m_def by blast
qed

text \<open>
  The three cases at chunk size 10: a full stop at index 6, a space at index 7 after a
  full stop at index 3, and a text with neither past the midpoint.
\<close>

theorem cut_end_priority_witness:
  "(0::int) \<le> 0 \<and> 0 < chunk_size (init 10 0) \<and>
   0 + chunk_size (init 10 0) < int (length ''aaaaaa. aaaaaaaaaaa'') \<and>
   ''aaaaaa. aaaaaaaaaaa'' ! 6 = CHR ''.'' \<and>
   cut_end (init 10 0) ''aaaaaa. aaaaaaaaaaa'' 0 = 7 \<and>
   0 + chunk_size (init 10 0) < int (length ''aaa.aaa aaaaaaaaaaa'') \<and>
   ''aaa.aaa aaaaaaaaaaa'' ! 7 = CHR '' '' \<and>
   cut_end (init 10 0) ''aaa.aaa aaaaaaaaaaa'' 0 = 7 \<and>
   0 + chunk_size (init 10 0) < int (length ''aaaaaaa\<newline>\<newline>aaaaaaaaa'') \<and>
   cut_end (init 10 0) ''aaaaaaa\<newline>\<newline>aaaaaaaaa'' 0 = 10"
proof -
  have h1: "(0::int) \<le> 0" by simp
  have h2: "0 < chunk_size (init 10 0)" by (simp add: init_def)
  have a3: "0 + chunk_size (init 10 0) < int (length ''aaaaaa. aaaaaaaaaaa'')"
    by (simp add: init_def)
  have a4: "0 + chunk_size (init 10 0) div 2 < int 6 \<and> int 6 < 0 + chunk_size (init 10 0) \<and>
      ''aaaaaa. aaaaaaaaaaa'' ! 6 = CHR ''.'' \<and>
      CHR ''.'' \<notin> set (slice ''aaaaaa. aaaaaaaaaaa'' (int 6 + 1) (0 + chunk_size (init 10 0)))"
    by code_simp
  have b3: "0 + chunk_size (init 10 0) < int (length ''aaa.aaa aaaaaaaaaaa'')"
    by (simp add: init_def)
  have b4: "CHR ''.'' \<notin> set (slice ''aaa.aaa aaaaaaaaaaa'' (0 + chunk_size (init 10 0) div 2 + 1)
        (0 + chunk_size (init 10 0))) \<and>
      0 + chunk_size (init 10 0) div 2 < int 7 \<and> int 7 < 0 + chunk_size (init 10 0) \<and>
      ''aaa.aaa aaaaaaaaaaa'' ! 7 = CHR '' '' \<and>
      CHR '' '' \<notin> set (slice ''aaa.aaa aaaaaaaaaaa'' (int 7 + 1) (0 + chunk_size (init 10 0)))"
    by code_simp
  have c3: "0 + chunk_size (init 10 0) < int (length ''aaaaaaa\<newline>\<newline>aaaaaaaaa'')"
    by (simp add: init_def)
  have c4: "CHR ''.'' \<notin> set (slice ''aaaaaaa\<newline>\<newline>aaaaaaaaa'' (0 + chunk_size (init 10 0) div 2 + 1)
        (0 + chunk_size (init 10 0))) \<and>
      CHR '' '' \<notin> set (slice ''aaaaaaa\<newline>\<newline>aaaaaaaaa'' (0 + chunk_size (init 10 0) div 2 + 1)
        (0 + chunk_size (init 10 0)))"
    by code_simp
  have a: "cut_end (init 10 0) ''aaaaaa. aaaaaaaaaaa'' 0 = int 6 + 1"
    using cut_end_priority [OF h1 h2 a3] a4 by blast
  have b: "cut_end (init 10 0) ''aaa.aaa aaaaaaaaaaa'' 0 = int 7"
    using cut_end_priority [OF h1 h2 b3] b4 by blast
  have c: "cut_end (init 10 0) ''aaaaaaa\<newline>\<newline>aaaaaaaaa'' 0 = 0 + chunk_size (init 10 0)"
    using cut_end_priority [OF h1 h2 c3] c4 by blast
  have e: "chunk_size (init 10 0) = 10" by (simp add: init_def)
  from a4 b4 have "''aaaaaa. aaaaaaaaaaa'' ! 6 = CHR ''.''" "''aaa.aaa aaaaaaaaaaa'' ! 7 = CHR '' ''"
    by blast+
  with a b c show ?thesis using h2 a3 b3 c3 by (simp add: e)
qed

text \<open>
  A paragraph break at indices 7 and 8 of the first window \<open>[0, 10)\<close>, past the midpoint 5:
  the window is cut at the hard limit 10, and the first chunk runs over the break.
\<close>

theorem paragraph_break_counterexample:
  "0 < chunk_size (init 10 0) \<and> 0 \<le> chunk_overlap (init 10 0) \<and>
   chunk_overlap (init 10 0) < chunk_size (init 10 0) \<and>
   slice ''aaaaaaa\<newline>\<newline>aaaaaaaaa'' 7 9 = ''\<newline>\<newline>'' \<and>
   0 + chunk_size (init 10 0) div 2 < 7 \<and> 7 < 0 + chunk_size (init 10 0) \<and>
   0 + chunk_size (init 10 0) < int (length ''aaaaaaa\<newline>\<newline>aaaaaaaaa'') \<and>
   cut_end (init 10 0) ''aaaaaaa\<newline>\<newline>aaaaaaaaa'' 0 = 10 \<and>
   chunk_spans 2 (init 10 0) ''aaaaaaa\<newline>\<newline>aaaaaaaaa'' = Some [(0, 10), (10, 20)] \<and>
   chunk_text 2 (init 10 0) ''aaaaaaa\<newline>\<newline>aaaaaaaaa'' =
     Some [''aaaaaaa\<newline>\<newline>a'', ''aaaaaaaa'']"
  by code_simp

section \<open>Errors of the embedding gateway\<close>

lemma retrieve_with_normal:
  "\<exists>contexts. fst (retrieve_with loop svc self query n_results min_similarity) = Inr contexts"
  by (auto simp: retrieve_with_def split: prod.splits sum.splits)

text \<open>
  Claim C3, as the code has it. When the embedding step fails with an error, \<^verbatim>\<open>search\<close>
  raises that error after the one call of the gateway, with no second call and no call of
  the index; \<^verbatim>\<open>retrieve_context\<close>, in both services, catches it and returns the empty list
  as a normal result.
\<close>

theorem retrieve_context_absorbs_embedding_error:
  assumes "fst (generate_embedding svc (vector_store self) query) = Inl e"
  shows "search svc (vector_store self) query n_results =
           (Inl e, [EmbeddingsCall (embedding_model (vector_store self)) query]) \<and>
         retrieve_context svc self query n_results min_similarity =
           (Inr [], [EmbeddingsCall (embedding_model (vector_store self)) query]) \<and>
         improved_retrieve_context svc self query n_results min_similarity =
           (Inr [], [EmbeddingsCall (embedding_model (vector_store self)) query])"
proof -
  have "snd (generate_embedding svc (vector_store self) query) =
      [EmbeddingsCall (embedding_model (vector_store self)) query]"
    by (simp add: generate_embedding_def)
  with assms have "generate_embedding svc (vector_store self) query =
      (Inl e, [EmbeddingsCall (embedding_model (vector_store self)) query])"
    by (simp add: prod_eq_iff)
  then show ?thesis
    by (simp add: search_def retrieve_context_def improved_retrieve_context_def retrieve_with_def)
qed

text \<open>
  The theorem for a gateway that is unreachable.
\<close>

theorem retrieve_context_absorbs_embedding_error_witness:
  "fst (generate_embedding unreachable_ollama (vector_store (service_on three_collection)) ''q'')
     = Inl EmbeddingError \<and>
   search unreachable_ollama (vector_store (service_on three_collection)) ''q'' 6 =
     (Inl EmbeddingError, [EmbeddingsCall ''mxbai-embed-large'' ''q'']) \<and>
   retrieve_context unreachable_ollama (service_on three_collection) ''q'' 6 0 =
     (Inr [], [EmbeddingsCall ''mxbai-embed-large'' ''q''])"
proof -
  have h: "fst (generate_embedding unreachable_ollama
     (vector_store (service_on three_collection)) ''q'') = Inl EmbeddingError"
    by (simp add: generate_embedding_def unreachable_ollama_def)
  have m: "embedding_model (vector_store (service_on three_collection)) = ''mxbai-embed-large''"
    by (simp add: service_on_def)
  from retrieve_context_absorbs_embedding_error [OF h, of 6 0]
  show ?thesis using h by (simp add: m)
qed

text \<open>
  With an unreachable gateway the embedding step fails and \<^verbatim>\<open>retrieve_context\<close> returns
  the empty list, not the error.
\<close>

theorem retrieve_context_propagation_counterexample:
  "fst (generate_embedding unreachable_ollama (vector_store (service_on three_collection)) ''q'')
     = Inl EmbeddingError \<and>
   fst (retrieve_context unreachable_ollama (service_on three_collection) ''q'' 6 0) = Inr [] \<and>
   fst (improved_retrieve_context unreachable_ollama (service_on three_collection) ''q'' 6 0) = Inr []"
  by (simp add: generate_embedding_def search_def retrieve_context_def
      improved_retrieve_context_def retrieve_with_def unreachable_ollama_def service_on_def)

section \<open>Similarity and the threshold\<close>

lemma collect_contexts_aligned:
  assumes "length metas = length docs" "length dists = length docs"
    "\<forall>j<length docs. distance_at results (k + j) = Inr (dists ! j) \<and>
        metadata_at results (k + j) = Inr (metas ! j)"
  shows "collect_contexts results min_similarity (List.enumerate k docs) acc =
           Inr (acc @ filter (\<lambda>c. min_similarity \<le> ctx_similarity c)
                  (similarity_records docs metas dists)) \<and>
         improved_collect_contexts results min_similarity (List.enumerate k docs) acc =
           Inr (acc @ filter (\<lambda>c. min_similarity \<le> ctx_similarity c)
                  (similarity_records docs metas dists))"
  using assms
proof (induction docs arbitrary: k metas dists acc)
  case Nil
  then show ?case by (simp add: similarity_records_def)
next
  case (Cons doc docs)
  from Cons.prems(1,2) obtain m metas' d dists' where
    ms: "metas = m # metas'" "length metas' = length docs" and
    ds: "dists = d # dists'" "length dists' = length docs"
    by (cases metas; cases dists) auto
  from Cons.prems(3) [rule_format, of 0] ms ds have
    hd: "distance_at results k = Inr d" "metadata_at results k = Inr m" by simp_all
  have tl: "\<forall>j<length docs. distance_at results (Suc k + j) = Inr (dists' ! j) \<and>
        metadata_at results (Suc k + j) = Inr (metas' ! j)"
  proof (intro allI impI)
    fix j assume "j < length docs"
    with Cons.prems(3) [rule_format, of "Suc j"] ms ds
    show "distance_at results (Suc k + j) = Inr (dists' ! j) \<and>
        metadata_at results (Suc k + j) = Inr (metas' ! j)" by simp
  qed
  note ih = Cons.IH [OF ms(2) ds(2) tl]
  show ?case
    by (simp add: hd ms ds ih Let_def similarity_records_def [symmetric])
       (simp add: similarity_records_def)
qed

lemma retrieve_with_aligned:
  assumes "search svc (vector_store self) query n_results = (Inr results, calls)"
    "documents results = Present (docs # more_docs)"
    "length metas = length docs" "length dists = length docs"
    "\<forall>j<length docs. distance_at results j = Inr (dists ! j) \<and>
        metadata_at results j = Inr (metas ! j)"
  shows "retrieve_context svc self query n_results min_similarity =
           (Inr (filter (\<lambda>c. min_similarity \<le> ctx_similarity c)
                  (similarity_records docs metas dists)), calls) \<and>
         improved_retrieve_context svc self query n_results min_similarity =
           (Inr (filter (\<lambda>c. min_similarity \<le> ctx_similarity c)
                  (similarity_records docs metas dists)), calls)"
proof (cases "docs = []")
  case True
  with assms(1,2) show ?thesis
    by (simp add: retrieve_context_def improved_retrieve_context_def retrieve_with_def
        extract_contexts_def similarity_records_def)
next
  case False
  from assms(5) have "\<forall>j<length docs. distance_at results (0 + j) = Inr (dists ! j) \<and>
        metadata_at results (0 + j) = Inr (metas ! j)" by simp
  from collect_contexts_aligned [OF assms(3,4) this, of min_similarity "[]"] False assms(1,2)
  show ?thesis
    by (simp add: retrieve_context_def improved_retrieve_context_def retrieve_with_def
        extract_contexts_def)
qed

text \<open>
  Claim C7, as the code has it. When the index answers with one metadata entry and one
  distance per document, \<^verbatim>\<open>retrieve_context\<close>, in both services, gives every document the
  similarity \<open>1 - distance\<close> as the float subtraction computes it, and returns, in the
  order of the index, exactly the records whose similarity is at least
  \<open>min_similarity\<close>.
\<close>

theorem retrieve_context_threshold:
  assumes "search svc (vector_store self) query n_results = (Inr results, calls)"
    "documents results = Present (docs # more_docs)"
    "metadatas results = Present (metas # more_metas)" "length metas = length docs"
    "distances results = Present (dists # more_dists)" "length dists = length docs"
  shows "retrieve_context svc self query n_results min_similarity =
           (Inr (filter (\<lambda>c. min_similarity \<le> ctx_similarity c)
                  (similarity_records docs metas dists)), calls) \<and>
         improved_retrieve_context svc self query n_results min_similarity =
           (Inr (filter (\<lambda>c. min_similarity \<le> ctx_similarity c)
                  (similarity_records docs metas dists)), calls)"
proof -
  have "\<forall>j<length docs. distance_at results j = Inr (dists ! j) \<and>
        metadata_at results j = Inr (metas ! j)"
    using assms(3-6) by (simp add: distance_at_def metadata_at_def getitem_def)
  from retrieve_with_aligned [OF assms(1,2,4,6) this] show ?thesis .
qed

text \<open>
  The scenario of the specification, with the floats of the literals: the distances
  \<^verbatim>\<open>0.1\<close>, \<^verbatim>\<open>0.6\<close> and \<^verbatim>\<open>1.3\<close> give the similarities \<^verbatim>\<open>0.9\<close>, \<^verbatim>\<open>0.4\<close> and
  \<^verbatim>\<open>-0.30000000000000004\<close>, and with the threshold \<^verbatim>\<open>0.5\<close> only the first record is
  returned.
\<close>

theorem retrieve_context_threshold_witness:
  "search echo_ollama (vector_store (service_on three_collection)) ''q'' 6 =
     (Inr three_results,
      [EmbeddingsCall ''mxbai-embed-large'' ''q'', CountCall, QueryCall [1, 0] 3]) \<and>
   documents three_results = Present [[''a'', ''b'', ''c'']] \<and>
   distances three_results =
     Present [[round_double 0.1, round_double 0.6, round_double 1.3]] \<and>
   map ctx_similarity (similarity_records [''a'', ''b'', ''c'']
      [[(''source'', StrV ''x.txt'')], [(''source'', StrV ''y.txt'')], [(''source'', StrV ''z.txt'')]]
      [round_double 0.1, round_double 0.6, round_double 1.3]) =
     [round_double 0.9, round_double 0.4, - (1351079888211149 / 4503599627370496)] \<and>
   retrieve_context echo_ollama (service_on three_collection) ''q'' 6 (round_double 0.5) =
     (Inr [\<lparr>ctx_text = ''a'', ctx_metadata = [(''source'', StrV ''x.txt'')],
            ctx_similarity = round_double 0.9\<rparr>],
      [EmbeddingsCall ''mxbai-embed-large'' ''q'', CountCall, QueryCall [1, 0] 3]) \<and>
   improved_retrieve_context echo_ollama (service_on three_collection) ''q'' 6 (round_double 0.5) =
     (Inr [\<lparr>ctx_text = ''a'', ctx_metadata = [(''source'', StrV ''x.txt'')],
            ctx_similarity = round_double 0.9\<rparr>],
      [EmbeddingsCall ''mxbai-embed-large'' ''q'', CountCall, QueryCall [1, 0] 3])"
proof -
  have h1: "search echo_ollama (vector_store (service_on three_collection)) ''q'' 6 =
     (Inr three_results,
      [EmbeddingsCall ''mxbai-embed-large'' ''q'', CountCall, QueryCall [1, 0] 3])"
    by (simp add: search_def generate_embedding_def echo_ollama_def service_on_def
        three_collection_def three_results_def)
  have h2: "documents three_results = Present ([''a'', ''b'', ''c''] # [])"
    by (simp add: three_results_def)
  have h3: "metadatas three_results = Present ([[(''source'', StrV ''x.txt'')],
      [(''source'', StrV ''y.txt'')], [(''source'', StrV ''z.txt'')]] # [])"
    by (simp add: three_results_def)
  have h4: "length [[(''source'', StrV ''x.txt'')],
      [(''source'', StrV ''y.txt'')], [(''source'', StrV ''z.txt'')]] = length [''a'', ''b'', ''c'']"
    by simp
  have h5: "distances three_results =
      Present ([round_double 0.1, round_double 0.6, round_double 1.3] # [])"
    by (simp add: three_results_def)
  have h6: "length [round_double 0.1, round_double 0.6, round_double 1.3] =
      length [''a'', ''b'', ''c'']" by simp
  from retrieve_context_threshold [OF h1 h2 h3 h4 h5 h6, of "round_double 0.5"]
  show ?thesis
    using h1 h2 h5
    by (simp add: similarity_records_def round_double_def binade_def bit_length.simps
        pow2_def round_half_even_def Let_def)
qed

text \<open>
  Two inputs outside that statement. An answer with the document \<^verbatim>\<open>a\<close> at
  distance \<^verbatim>\<open>0.1\<close> and an empty metadata row: the similarity \<^verbatim>\<open>0.9\<close> passes the
  threshold \<^verbatim>\<open>0.5\<close>, the metadata lookup raises \<^verbatim>\<open>IndexError\<close>, and both services return
  the empty list. And the scenario at the threshold \<^verbatim>\<open>-1.0\<close>: the third similarity is
  \<^verbatim>\<open>-0.30000000000000004\<close>, which is not the float \<^verbatim>\<open>-0.3\<close>.
\<close>

theorem retrieve_context_threshold_counterexample:
  "documents unlabelled_results = Present [[''a'']] \<and>
   distances unlabelled_results = Present [[round_double 0.1]] \<and>
   round_double 0.5 \<le> round_double (1 - round_double 0.1) \<and>
   fst (retrieve_context echo_ollama (service_on unlabelled_collection) ''q'' 6
          (round_double 0.5)) = Inr [] \<and>
   fst (improved_retrieve_context echo_ollama (service_on unlabelled_collection) ''q'' 6
          (round_double 0.5)) = Inr [] \<and>
   map (map ctx_similarity)
     (projr (fst (retrieve_context echo_ollama (service_on three_collection) ''q'' 6 (- 1))) #
      projr (fst (improved_retrieve_context echo_ollama (service_on three_collection) ''q'' 6
                   (- 1))) # []) =
     [[round_double 0.9, round_double 0.4, - (1351079888211149 / 4503599627370496)],
      [round_double 0.9, round_double 0.4, - (1351079888211149 / 4503599627370496)]] \<and>
   round_double (- 0.3) = - (5404319552844595 / 18014398509481984) \<and>
   - (1351079888211149 / 4503599627370496) \<noteq> round_double (- 0.3)"
  by (simp add: search_def generate_embedding_def echo_ollama_def service_on_def
        unlabelled_collection_def unlabelled_results_def three_collection_def three_results_def
        retrieve_context_def improved_retrieve_context_def retrieve_with_def
        extract_contexts_def distance_at_def metadata_at_def getitem_def
        round_double_def binade_def bit_length.simps pow2_def round_half_even_def Let_def)

section \<open>A result without distances\<close>

lemma metadata_at_cases:
  "metadata_at results i = Inr m \<longleftrightarrow>
     (metadatas results = Null \<and> m = []) \<or> (metadatas results = Present [] \<and> m = []) \<or>
     (\<exists>row more. metadatas results = Present (row # more) \<and> i < length row \<and> m = row ! i)"
proof (cases "metadatas results")
  case (Present rows)
  then show ?thesis
    by (cases rows) (auto simp: metadata_at_def getitem_def)
qed (auto simp: metadata_at_def)

text \<open>
  Claim C10, as the code has it. When the result mapping has documents and no
  \<^verbatim>\<open>distances\<close> key, and the metadata lookup succeeds for every document, every document
  gets the distance 0 and the similarity 1, and with a threshold of at most 1 every
  document is returned.
\<close>

theorem retrieve_context_default_distance:
  assumes "search svc (vector_store self) query n_results = (Inr results, calls)"
    "documents results = Present (docs # more_docs)"
    "distances results = Absent"
    "length metas = length docs"
    "\<forall>i<length docs. metadata_at results i = Inr (metas ! i)"
    "min_similarity \<le> 1"
  shows "retrieve_context svc self query n_results min_similarity =
           (Inr (map (\<lambda>(doc, m). \<lparr>ctx_text = doc, ctx_metadata = m, ctx_similarity = 1\<rparr>)
                  (zip docs metas)), calls) \<and>
         improved_retrieve_context svc self query n_results min_similarity =
           (Inr (map (\<lambda>(doc, m). \<lparr>ctx_text = doc, ctx_metadata = m, ctx_similarity = 1\<rparr>)
                  (zip docs metas)), calls)"
proof -
  define dists :: "real list" where "dists = replicate (length docs) 0"
  have l: "length dists = length docs" by (simp add: dists_def)
  have a: "\<forall>j<length docs. distance_at results j = Inr (dists ! j) \<and>
        metadata_at results j = Inr (metas ! j)"
    using assms(3,5) by (simp add: distance_at_def dists_def)
  have "similarity_records docs metas dists =
      map (\<lambda>(doc, m). \<lparr>ctx_text = doc, ctx_metadata = m, ctx_similarity = 1\<rparr>) (zip docs metas)"
    using assms(4) unfolding dists_def similarity_records_def
    by (induction docs metas rule: list_induct2') (auto simp: round_double_one)
  moreover have "filter (\<lambda>c. min_similarity \<le> ctx_similarity c)
      (map (\<lambda>(doc, m). \<lparr>ctx_text = doc, ctx_metadata = m, ctx_similarity = 1\<rparr>) (zip docs metas))
      = map (\<lambda>(doc, m). \<lparr>ctx_text = doc, ctx_metadata = m, ctx_similarity = 1\<rparr>) (zip docs metas)"
    using assms(6) by (auto simp: filter_id_conv)
  ultimately show ?thesis
    using retrieve_with_aligned [OF assms(1,2,4) l a, of min_similarity] by simp
qed

text \<open>
  Two documents with metadata and no distances, at the threshold 1.
\<close>

theorem retrieve_context_default_distance_witness:
  "search echo_ollama (vector_store (service_on undistanced_collection)) ''q'' 6 =
     (Inr undistanced_results,
      [EmbeddingsCall ''mxbai-embed-large'' ''q'', CountCall, QueryCall [1, 0] 2]) \<and>
   documents undistanced_results = Present [[''a'', ''b'']] \<and>
   distances undistanced_results = Absent \<and>
   retrieve_context echo_ollama (service_on undistanced_collection) ''q'' 6 1 =
     (Inr [\<lparr>ctx_text = ''a'', ctx_metadata = [(''source'', StrV ''x.txt'')], ctx_similarity = 1\<rparr>,
           \<lparr>ctx_text = ''b'', ctx_metadata = [(''source'', StrV ''y.txt'')], ctx_similarity = 1\<rparr>],
      [EmbeddingsCall ''mxbai-embed-large'' ''q'', CountCall, QueryCall [1, 0] 2]) \<and>
   improved_retrieve_context echo_ollama (service_on undistanced_collection) ''q'' 6 1 =
     (Inr [\<lparr>ctx_text = ''a'', ctx_metadata = [(''source'', StrV ''x.txt'')], ctx_similarity = 1\<rparr>,
           \<lparr>ctx_text = ''b'', ctx_metadata = [(''source'', StrV ''y.txt'')], ctx_similarity = 1\<rparr>],
      [EmbeddingsCall ''mxbai-embed-large'' ''q'', CountCall, QueryCall [1, 0] 2])"
proof -
  have h1: "search echo_ollama (vector_store (service_on undistanced_collection)) ''q'' 6 =
     (Inr undistanced_results,
      [EmbeddingsCall ''mxbai-embed-large'' ''q'', CountCall, QueryCall [1, 0] 2])"
    by (simp add: search_def generate_embedding_def echo_ollama_def service_on_def
        undistanced_collection_def undistanced_results_def)
  have h2: "documents undistanced_results = Present ([''a'', ''b''] # [])"
    by (simp add: undistanced_results_def)
  have h3: "distances undistanced_results = Absent"
    by (simp add: undistanced_results_def)
  have h4: "length [[(''source'', StrV ''x.txt'')], [(''source'', StrV ''y.txt'')]] =
      length [''a'', ''b'']" by simp
  have h5: "\<forall>i<length [''a'', ''b'']. metadata_at undistanced_results i =
      Inr ([[(''source'', StrV ''x.txt'')], [(''source'', StrV ''y.txt'')]] ! i)"
    by (simp add: metadata_at_def getitem_def undistanced_results_def less_Suc_eq
        eval_nat_numeral)
  have h6: "(1::real) \<le> 1" by simp
  from retrieve_context_default_distance [OF h1 h2 h3 h4 h5 h6]
  show ?thesis using h1 h2 h3 by simp
qed

text \<open>
  A mapping that holds one document and nothing else: the lookup of \<^verbatim>\<open>metadatas\<close> raises
  \<^verbatim>\<open>KeyError\<close>, the handler returns the empty list, and the document is not returned.
\<close>

theorem retrieve_context_default_distance_counterexample:
  "documents bare_results = Present [[''a'']] \<and> distances bare_results = Absent \<and>
   search echo_ollama (vector_store (service_on bare_collection)) ''q'' 6 =
     (Inr bare_results,
      [EmbeddingsCall ''mxbai-embed-large'' ''q'', CountCall, QueryCall [1, 0] 1]) \<and>
   fst (retrieve_context echo_ollama (service_on bare_collection) ''q'' 6 1) = Inr [] \<and>
   fst (improved_retrieve_context echo_ollama (service_on bare_collection) ''q'' 6 1) = Inr []"
  by (simp add: search_def generate_embedding_def echo_ollama_def service_on_def
      bare_collection_def bare_results_def retrieve_context_def improved_retrieve_context_def
      retrieve_with_def extract_contexts_def distance_at_def metadata_at_def round_double_one)

section \<open>Composition without context\<close>

lemma invoke_calls:
  "snd (invoke svc self messages stream calls) = calls @ [ChatCall (llm_model self) messages stream]"
  by (simp add: invoke_def Let_def split: sum.splits)

text \<open>
  Claim C2, as the code has it. When no context record is retrieved,
  \<^verbatim>\<open>format_prompt_with_context\<close> returns the query, \<^verbatim>\<open>generate_response\<close> calls the language
  model once with the single user message holding the query, and \<^verbatim>\<open>chat\<close> calls it once with
  a system message that holds no context, the last ten messages of the history, and the
  user message holding the query.
\<close>

theorem empty_context_composition:
  assumes "fst (contexts_for svc self query use_context n_context_docs) = Inr []"
  shows "format_prompt_with_context query [] system_prompt = query \<and>
         snd (generate_response svc self query use_context n_context_docs system_prompt stream) =
           snd (contexts_for svc self query use_context n_context_docs) @
           [ChatCall (llm_model self) [\<lparr>role = ''user'', content = query\<rparr>] stream] \<and>
         snd (chat svc self query conversation_history use_context n_context_docs stream) =
           snd (contexts_for svc self query use_context n_context_docs) @
           [ChatCall (llm_model self)
              ([\<lparr>role = ''system'', content = no_context_system_message\<rparr>] @
               (case conversation_history of None \<Rightarrow> []
                | Some history \<Rightarrow> drop (length history - 10) history) @
               [\<lparr>role = ''user'', content = query\<rparr>]) stream]"
proof -
  obtain calls where c: "contexts_for svc self query use_context n_context_docs = (Inr [], calls)"
    using assms by (cases "contexts_for svc self query use_context n_context_docs") simp
  have "chat_messages query conversation_history [] =
      [\<lparr>role = ''system'', content = no_context_system_message\<rparr>] @
      (case conversation_history of None \<Rightarrow> []
       | Some history \<Rightarrow> drop (length history - 10) history) @
      [\<lparr>role = ''user'', content = query\<rparr>]"
    by (simp add: chat_messages_def split: option.splits)
  then show ?thesis
    by (simp add: format_prompt_with_context_def generate_response_def chat_def c invoke_calls)
qed

text \<open>
  The theorem on an empty index.
\<close>

theorem empty_context_composition_witness:
  "fst (contexts_for echo_ollama (service_on empty_collection) ''q'' True 6) = Inr [] \<and>
   format_prompt_with_context ''q'' [] None = ''q'' \<and>
   snd (generate_response echo_ollama (service_on empty_collection) ''q'' True 6 None False) =
     [EmbeddingsCall ''mxbai-embed-large'' ''q'', CountCall, QueryCall [1, 0] 0,
      ChatCall ''llama3.2'' [\<lparr>role = ''user'', content = ''q''\<rparr>] False] \<and>
   snd (chat echo_ollama (service_on empty_collection) ''q'' None True 6 False) =
     [EmbeddingsCall ''mxbai-embed-large'' ''q'', CountCall, QueryCall [1, 0] 0,
      ChatCall ''llama3.2''
        [\<lparr>role = ''system'', content = no_context_system_message\<rparr>,
         \<lparr>role = ''user'', content = ''q''\<rparr>] False]"
proof -
  have c: "contexts_for echo_ollama (service_on empty_collection) ''q'' True 6 =
      (Inr [], [EmbeddingsCall ''mxbai-embed-large'' ''q'', CountCall, QueryCall [1, 0] 0])"
    by (simp add: contexts_for_def retrieve_context_def retrieve_with_def search_def
        generate_embedding_def extract_contexts_def echo_ollama_def service_on_def
        empty_collection_def)
  then have h: "fst (contexts_for echo_ollama (service_on empty_collection) ''q'' True 6) = Inr []"
    by simp
  have m: "llm_model (service_on empty_collection) = ''llama3.2''"
    by (simp add: service_on_def)
  from empty_context_composition [OF h, of None False None]
  show ?thesis using h by (simp add: c m)
qed

text \<open>
  On an empty index and without history, \<^verbatim>\<open>chat\<close> sends two messages: the system message
  comes first.
\<close>

theorem chat_system_message_counterexample:
  "fst (contexts_for echo_ollama (service_on empty_collection) ''q'' True 6) = Inr [] \<and>
   chat_messages ''q'' None [] =
     [\<lparr>role = ''system'', content = no_context_system_message\<rparr>,
      \<lparr>role = ''user'', content = ''q''\<rparr>] \<and>
   chat_messages ''q'' None [] \<noteq> [\<lparr>role = ''user'', content = ''q''\<rparr>] \<and>
   snd (chat echo_ollama (service_on empty_collection) ''q'' None True 6 False) =
     [EmbeddingsCall ''mxbai-embed-large'' ''q'', CountCall, QueryCall [1, 0] 0,
      ChatCall ''llama3.2''
        [\<lparr>role = ''system'', content = no_context_system_message\<rparr>,
         \<lparr>role = ''user'', content = ''q''\<rparr>] False]"
  by (simp add: contexts_for_def retrieve_context_def retrieve_with_def search_def
      generate_embedding_def extract_contexts_def echo_ollama_def service_on_def
      empty_collection_def chat_def chat_messages_def invoke_def)

section \<open>The caller's metadata\<close>

text \<open>
  The loop over the chunks writes only to the dictionaries it allocates; the update
  before it writes to the caller's dictionary whenever that is not empty.
\<close>

lemma annotate_frame:
  "a < length h \<Longrightarrow> fst (annotate h base_metadata n_chunks xs acc) ! a = h ! a \<and>
     length h \<le> length (fst (annotate h base_metadata n_chunks xs acc))"
proof (induction xs arbitrary: h acc)
  case Nil
  then show ?case by simp
next
  case (Cons x xs)
  obtain i chunk where x: "x = (i, chunk)" by (cases x)
  define h1 where "h1 = h @ [h ! base_metadata]"
  define h2 where
    "h2 = list_update h1 (length h) (AList.update ''chunk_index'' (IntV (int i)) (h1 ! length h))"
  define h3 where
    "h3 = list_update h2 (length h)
       (AList.update ''total_chunks'' (IntV (int n_chunks)) (h2 ! length h))"
  have l: "length h3 = Suc (length h)" by (simp add: h3_def h2_def h1_def)
  with Cons.prems have "a < length h3" by simp
  from Cons.IH [OF this] have
    "fst (annotate h3 base_metadata n_chunks xs (acc @ [\<lparr>pc_text = chunk, pc_metadata = length h\<rparr>])) ! a = h3 ! a"
    "length h3 \<le> length (fst (annotate h3 base_metadata n_chunks xs (acc @ [\<lparr>pc_text = chunk, pc_metadata = length h\<rparr>])))"
    by simp_all
  moreover have "h3 ! a = h ! a"
    using Cons.prems by (simp add: h3_def h2_def h1_def nth_append)
  ultimately show ?case
    using l by (simp add: x alloc_def Let_def h3_def h2_def h1_def)
qed

text \<open>The metadata of the chunks are the newly allocated dictionaries, one per chunk.\<close>

lemma annotate_refs:
  "map pc_metadata (snd (annotate h base_metadata n_chunks xs acc)) =
     map pc_metadata acc @ [length h..<length h + length xs]"
proof (induction xs arbitrary: h acc)
  case Nil
  then show ?case by simp
next
  case (Cons x xs)
  obtain i chunk where x: "x = (i, chunk)" by (cases x)
  have "[length h..<length h + Suc (length xs)] =
      length h # [Suc (length h)..<Suc (length h) + length xs]"
    by (simp add: upt_rec [of "length h"] Suc_le_eq)
  then show ?case
    by (simp add: x alloc_def Let_def Cons.IH)
qed

lemma annotate_chunks_writes_caller:
  assumes "a < length h" "h ! a \<noteq> []"
  shows "fst (annotate_chunks h file_path (Some a) chunks) ! a =
           AList.update ''file_path'' (StrV file_path)
             (AList.update ''source'' (StrV (basename file_path)) (h ! a))"
  using assms annotate_frame [of a "h[a := AList.update ''file_path'' (StrV file_path)
             (AList.update ''source'' (StrV (basename file_path)) (h ! a))]"]
  by (simp add: annotate_chunks_def Let_def)

text \<open>
  Claim C9, at a caller's dictionary \<^verbatim>\<open>{'filename': 'a.txt'}\<close> at address 0 and a file
  \<^verbatim>\<open>docs/a.txt\<close> holding \<^verbatim>\<open>hello\<close>: after the call the caller's dictionary holds the keys
  \<^verbatim>\<open>source\<close> and \<^verbatim>\<open>file_path\<close> as well; the metadata of the chunk is a new dictionary at
  address 1.
\<close>

theorem process_document_writes_caller_metadata:
  "process_document 1 (init 1000 200) [[(''filename'', StrV ''a.txt'')]] ''docs/a.txt''
       (Inr ''hello'') (Some 0) =
     Some (Inr ([[(''filename'', StrV ''a.txt''), (''source'', StrV ''a.txt''),
                  (''file_path'', StrV ''docs/a.txt'')],
                 [(''filename'', StrV ''a.txt''), (''source'', StrV ''a.txt''),
                  (''file_path'', StrV ''docs/a.txt''), (''chunk_index'', IntV 0),
                  (''total_chunks'', IntV 1)]],
                [\<lparr>pc_text = ''hello'', pc_metadata = 1\<rparr>])) \<and>
   [(''filename'', StrV ''a.txt''), (''source'', StrV ''a.txt''),
    (''file_path'', StrV ''docs/a.txt'')] \<noteq> [(''filename'', StrV ''a.txt'')]"
  by code_simp

end
